theory Spec2Isabelle
  imports Complex_Main "HOL-Library.Multiset" "HOL-Library.List_Lexorder" "HOL-Library.Char_ord"
    "HOL-Library.Product_Lexorder"
begin

section \<open>Strings and numbers as the TypeScript code uses them\<close>

text \<open>
  A JavaScript string is modelled as a \<^typ>\<open>string\<close>. \<open>toLowerCase\<close> is modelled on the
  ASCII letters; \<open>String.prototype.includes\<close> (here \<open>includes_str\<close>) is the substring
  test. A number is rendered in a template literal (and by \<open>toString\<close>) in decimal
  digits while its magnitude is below \<open>10^21\<close>; from there on JavaScript switches to the
  exponent notation of the double, which is not modelled: \<open>exponent_form\<close> is left
  unspecified and nothing is proved about it.
\<close>

definition lower_char :: "char \<Rightarrow> char" where
  "lower_char c =
     (case map_of (zip ''ABCDEFGHIJKLMNOPQRSTUVWXYZ'' ''abcdefghijklmnopqrstuvwxyz'') c of
        Some l \<Rightarrow> l
      | None \<Rightarrow> c)"

definition toLowerCase :: "string \<Rightarrow> string" where
  "toLowerCase s = map lower_char s"

fun startsWith :: "string \<Rightarrow> string \<Rightarrow> bool" where
  "startsWith s [] = True"
| "startsWith [] (p # ps) = False"
| "startsWith (c # cs) (p # ps) = (c = p \<and> startsWith cs ps)"

fun includes_str :: "string \<Rightarrow> string \<Rightarrow> bool" where
  "includes_str [] sub = (sub = [])"
| "includes_str (c # cs) sub = (startsWith (c # cs) sub \<or> includes_str cs sub)"

definition digit_char :: "nat \<Rightarrow> char" where
  "digit_char d = ''0123456789'' ! d"

fun toString_nat :: "nat \<Rightarrow> string" where
  "toString_nat n =
     (if n < 10 then [digit_char n] else toString_nat (n div 10) @ [digit_char (n mod 10)])"

declare toString_nat.simps [simp del]

definition exponent_form :: "int \<Rightarrow> string" where
  "exponent_form i = undefined i"

definition toString_int :: "int \<Rightarrow> string" where
  "toString_int i =
     (if \<bar>i\<bar> < 10 ^ 21
      then (if i < 0 then CHR ''-'' # toString_nat (nat (- i)) else toString_nat (nat i))
      else exponent_form i)"


section \<open>Status accessory (components/StationDepartures.tsx)\<close>

datatype Icon = Clock | XMarkCircle | CheckCircle
datatype Color = Yellow | Red | Green

record Image =
  source :: Icon
  tintColor :: Color

record Accessory =
  text_of :: string
  icon :: "Image option"

definition getStatusAccessory :: "string \<Rightarrow> Accessory" where
  "getStatusAccessory status =
     (let lowerStatus = toLowerCase status in
      if includes_str lowerStatus ''delay''
        then \<lparr>text_of = status, icon = Some \<lparr>source = Clock, tintColor = Yellow\<rparr>\<rparr>
      else if includes_str lowerStatus ''cancel''
        then \<lparr>text_of = status, icon = Some \<lparr>source = XMarkCircle, tintColor = Red\<rparr>\<rparr>
      else if includes_str lowerStatus ''on time''
        then \<lparr>text_of = ''On Time'', icon = Some \<lparr>source = CheckCircle, tintColor = Green\<rparr>\<rparr>
      else \<lparr>text_of = status, icon = None\<rparr>)"

text \<open>
  The display categories of the specification, read off the accessory that the code
  builds: the yellow clock is Delayed, the red cross Cancelled, the green check OnTime,
  and an accessory without icon is the raw status text.
\<close>

datatype category = Delayed | Cancelled | OnTime | Raw string

definition display_category :: "Accessory \<Rightarrow> category" where
  "display_category a =
     (case icon a of
        None \<Rightarrow> Raw (text_of a)
      | Some i \<Rightarrow> (case source i of Clock \<Rightarrow> Delayed | XMarkCircle \<Rightarrow> Cancelled | CheckCircle \<Rightarrow> OnTime))"

text \<open>
  The specification's wording: case-insensitive substring match. \<open>s\<close> contains \<open>p\<close> when
  the lower-cased \<open>s\<close> splits into a part before \<open>p\<close>, \<open>p\<close> itself and a part after it.
\<close>

definition contains_ci :: "string \<Rightarrow> string \<Rightarrow> bool" where
  "contains_ci s p = (\<exists>before after. toLowerCase s = before @ p @ after)"

definition spec_status_category :: "string \<Rightarrow> category" where
  "spec_status_category s =
     (if contains_ci s ''delay'' then Delayed
      else if contains_ci s ''cancel'' then Cancelled
      else if contains_ci s ''on time'' then OnTime
      else Raw s)"


section \<open>Departures (types.ts, utils/api.ts)\<close>

datatype FilterableSystem = LIRR | SUBWAY | MNR
datatype Direction = DirN | DirS | DirE | DirW | DirUnknown

text \<open>
  The interface \<open>Departure\<close>. On the wire \<open>departureTime\<close> is an ISO string or null; after
  \<open>fetchDepartures\<close> it is a date or null, so the record is polymorphic in the type of
  that field. An optional or nullable field is an \<^typ>\<open>'a option\<close>.
\<close>

record 'time Departure =
  tripId :: "string option"
  routeId :: "string option"
  routeShortName :: "string option"
  routeLongName :: "string option"
  peakStatus :: "string option"
  routeColor :: "string option"
  destination :: string
  direction :: "Direction option"
  departureTime :: "'time option"
  delayMinutes :: "int option"
  track :: "string option"
  status :: string
  destinationBorough :: "string option"
  system :: FilterableSystem

record 'time ProcessedDeparture = "'time Departure" +
  systemRouteId :: string

record APIError =
  message :: string
  statusCode :: "nat option"

datatype DepartureSource = scheduled | realtime

fun system_name :: "FilterableSystem \<Rightarrow> string" where
  "system_name LIRR = ''LIRR''"
| "system_name SUBWAY = ''SUBWAY''"
| "system_name MNR = ''MNR''"

fun source_name :: "DepartureSource \<Rightarrow> string" where
  "source_name scheduled = ''scheduled''"
| "source_name realtime = ''realtime''"

text \<open>
  The request path that \<open>fetchDepartures\<close> builds for a non-empty station id:
  \<open>limitMinutes\<close> is appended when it is given and positive, \<open>source\<close> when it is given.
\<close>

definition departures_endpoint :: "string \<Rightarrow> int option \<Rightarrow> DepartureSource option \<Rightarrow> string" where
  "departures_endpoint stationId limitMinutes src =
     (let endpoint = ''/departures/'' @ stationId;
          endpoint = (case limitMinutes of
                        Some l \<Rightarrow> if l \<noteq> 0 \<and> l > 0
                                  then endpoint @ ''?limitMinutes='' @ toString_int l
                                  else endpoint
                      | None \<Rightarrow> endpoint);
          endpoint = (case src of
                        Some s \<Rightarrow> endpoint @ ''&source='' @ source_name s
                      | None \<Rightarrow> endpoint)
      in endpoint)"

text \<open>
  The object that \<open>rawDepartures.map\<close> builds: the spread keeps every field, then
  \<open>departureTime\<close>, \<open>systemRouteId\<close> and \<open>delayMinutes\<close> are overwritten. A falsy value
  (null, the empty string, the number 0) takes the else branch of each conditional.
  \<open>new_Date\<close> stands for the \<open>Date\<close> constructor.
\<close>

definition processDeparture ::
  "(string \<Rightarrow> 'date) \<Rightarrow> string Departure \<Rightarrow> 'date ProcessedDeparture" where
  "processDeparture new_Date dep =
     \<lparr> tripId = tripId dep,
       routeId = routeId dep,
       routeShortName = routeShortName dep,
       routeLongName = routeLongName dep,
       peakStatus = peakStatus dep,
       routeColor = routeColor dep,
       destination = destination dep,
       direction = direction dep,
       departureTime = (case departureTime dep of
                          Some t \<Rightarrow> if t \<noteq> [] then Some (new_Date t) else None
                        | None \<Rightarrow> None),
       delayMinutes = (case delayMinutes dep of
                         Some d \<Rightarrow> if d \<noteq> 0 then Some d else None
                       | None \<Rightarrow> None),
       track = track dep,
       status = status dep,
       destinationBorough = destinationBorough dep,
       system = system dep,
       systemRouteId = (case routeId dep of
                          Some r \<Rightarrow> if r \<noteq> [] then system_name (system dep) @ ''-'' @ r else []
                        | None \<Rightarrow> []) \<rparr>"

text \<open>
  \<open>fetchDepartures\<close>. The network is the function \<open>wrapper\<close>, the outcome of
  \<open>fetchFromWrapper<Departure[]>\<close> at an endpoint: an \<open>APIError\<close> thrown (\<open>Inl\<close>) or the
  payload. The result pairs the list of endpoints requested with the outcome of the
  call.
\<close>

definition fetchDepartures ::
  "(string \<Rightarrow> 'date) \<Rightarrow> (string \<Rightarrow> APIError + string Departure list) \<Rightarrow>
   string \<Rightarrow> int option \<Rightarrow> DepartureSource option \<Rightarrow>
   string list \<times> (APIError + 'date ProcessedDeparture list)" where
  "fetchDepartures new_Date wrapper stationId limitMinutes src =
     (if stationId = [] then ([], Inr [])
      else
        let endpoint = departures_endpoint stationId limitMinutes src in
        case wrapper endpoint of
          Inl e \<Rightarrow> ([endpoint], Inl e)
        | Inr rawDepartures \<Rightarrow> ([endpoint], Inr (map (processDeparture new_Date) rawDepartures)))"


section \<open>The API client (utils/api.ts): error envelope and fetchFromWrapper\<close>

text \<open>
  The value that \<open>response.json()\<close> yields. An object is the list of its properties (a
  parsed object has each key once).
\<close>

datatype json =
    JNull
  | JBool bool
  | JNumber int
  | JString string
  | JArray "json list"
  | JObject "(string \<times> json) list"

fun typeof :: "json \<Rightarrow> string" where
  "typeof JNull = ''object''"
| "typeof (JBool b) = ''boolean''"
| "typeof (JNumber n) = ''number''"
| "typeof (JString s) = ''string''"
| "typeof (JArray xs) = ''object''"
| "typeof (JObject fs) = ''object''"

text \<open>
  \<open>get_prop v k\<close> is \<open>v[k]\<close> for a property name \<open>k\<close> that is not an array index or a
  built-in (the code asks for \<open>error\<close> and \<open>message\<close> only); \<open>None\<close> is \<open>undefined\<close>.
  \<open>has_prop v k\<close> is \<open>k in v\<close>.
\<close>

fun get_prop :: "json \<Rightarrow> string \<Rightarrow> json option" where
  "get_prop (JObject fs) k = map_of fs k"
| "get_prop v k = None"

fun has_prop :: "json \<Rightarrow> string \<Rightarrow> bool" where
  "has_prop (JObject fs) k = (k \<in> fst ` set fs)"
| "has_prop v k = False"

definition isErrorResponse :: "json \<Rightarrow> bool" where
  "isErrorResponse data =
     (if typeof data \<noteq> ''object'' \<or> data = JNull then False
      else
        has_prop data ''error'' \<and>
        (case get_prop data ''error'' of
           None \<Rightarrow> False
         | Some err \<Rightarrow>
             err \<noteq> JNull \<and>
             typeof err = ''object'' \<and>
             err \<noteq> JNull \<and>
             has_prop err ''message'' \<and>
             (case get_prop err ''message'' of
                None \<Rightarrow> False
              | Some m \<Rightarrow> typeof m = ''string'')))"

text \<open>\<open>data.error.message\<close>, read when \<open>isErrorResponse data\<close> holds.\<close>

definition error_message :: "json \<Rightarrow> string" where
  "error_message data =
     (case get_prop data ''error'' of
        Some err \<Rightarrow> (case get_prop err ''message'' of Some (JString m) \<Rightarrow> m | _ \<Rightarrow> [])
      | None \<Rightarrow> [])"

text \<open>
  What \<open>fetch\<close> and \<open>response.json()\<close> can do: reject with a thrown value, which is an
  \<open>Error\<close> with a message or something else, or deliver. A response has its status, its
  \<open>content-type\<close> header (\<open>None\<close> when absent) and the outcome of parsing its body.
\<close>

datatype thrown = ErrorObject string | NotAnError

record Response =
  http_status :: nat
  contentType :: "string option"
  json_body :: "thrown + json"

datatype fetch_outcome = Rejected thrown | Responded Response

definition ok :: "Response \<Rightarrow> bool" where
  "ok r = (200 \<le> http_status r \<and> http_status r \<le> 299)"

definition http_error_text :: "nat \<Rightarrow> string" where
  "http_error_text st = ''HTTP error! status: '' @ toString_nat st"

text \<open>The \<open>catch\<close> block: a value that is not an \<open>APIError\<close> is wrapped in one.\<close>

fun wrap_thrown :: "thrown \<Rightarrow> APIError" where
  "wrap_thrown (ErrorObject m) = \<lparr>message = m, statusCode = None\<rparr>"
| "wrap_thrown NotAnError = \<lparr>message = ''An unknown network error occurred.'', statusCode = None\<rparr>"

text \<open>
  \<open>fetchFromWrapper\<close>: \<open>fetch\<close> is the network, from the URL to what comes back;
  \<open>API_BASE_URL\<close> is read from the environment. \<open>Inl\<close> is the \<open>APIError\<close> thrown, \<open>Inr\<close>
  the data returned.
\<close>

definition fetchFromWrapper ::
  "string \<Rightarrow> (string \<Rightarrow> fetch_outcome) \<Rightarrow> string \<Rightarrow> APIError + json" where
  "fetchFromWrapper API_BASE_URL fetch endpoint =
     (let url = API_BASE_URL @ endpoint in
      case fetch url of
        Rejected t \<Rightarrow> Inl (wrap_thrown t)
      | Responded response \<Rightarrow>
          (let invalid = \<lparr>message = ''Invalid response format received from server.'',
                          statusCode = Some (http_status response)\<rparr> in
           case contentType response of
             None \<Rightarrow> Inl invalid
           | Some ct \<Rightarrow>
               if ct = [] \<or> \<not> includes_str ct ''application/json'' then Inl invalid
               else
                 (case json_body response of
                    Inl t \<Rightarrow> Inl (wrap_thrown t)
                  | Inr data \<Rightarrow>
                      if \<not> ok response then
                        (if isErrorResponse data then
                           Inl \<lparr>message = (if error_message data \<noteq> [] then error_message data
                                            else http_error_text (http_status response)),
                                statusCode = Some (http_status response)\<rparr>
                         else
                           Inl \<lparr>message = http_error_text (http_status response),
                                statusCode = Some (http_status response)\<rparr>)
                      else if isErrorResponse data then
                        Inl \<lparr>message = error_message data,
                             statusCode = Some (http_status response)\<rparr>
                      else Inr data)))"

definition envelope :: "string \<Rightarrow> json" where
  "envelope m = JObject [(''error'', JObject [(''message'', JString m)])]"

definition sample_fetch :: "nat \<Rightarrow> string \<Rightarrow> json \<Rightarrow> string \<Rightarrow> fetch_outcome" where
  "sample_fetch st ct data url =
     Responded \<lparr>http_status = st, contentType = Some ct, json_body = Inr data\<rparr>"


text \<open>Sample data for the concrete instances below.\<close>

definition sample_departure :: "string option \<Rightarrow> int option \<Rightarrow> string option \<Rightarrow> string Departure" where
  "sample_departure time delay borough =
     \<lparr> tripId = Some ''GO103_25_7621'',
       routeId = Some ''9'',
       routeShortName = Some ''PW'',
       routeLongName = Some ''Port Washington Branch'',
       peakStatus = Some ''Off Peak'',
       routeColor = Some ''C60C30'',
       destination = ''Port Washington'',
       direction = Some DirE,
       departureTime = time,
       delayMinutes = delay,
       track = Some ''19'',
       status = ''On Time'',
       destinationBorough = borough,
       system = LIRR \<rparr>"

definition sample_wrapper :: "string Departure list \<Rightarrow> string \<Rightarrow> APIError + string Departure list" where
  "sample_wrapper deps endpoint = Inr deps"


section \<open>Sorting with a comparator\<close>

text \<open>
  \<open>Array.prototype.sort(compare)\<close> is a stable sort: elements that compare as equal keep
  their order. It is modelled as the stable insertion sort, which is what every stable
  sort computes when the comparator is consistent. \<open>localeCompare\<close> is a library function
  of the platform; it enters the model as a parameter, a comparator on strings.
\<close>

fun insert_sorted :: "('a \<Rightarrow> 'a \<Rightarrow> int) \<Rightarrow> 'a \<Rightarrow> 'a list \<Rightarrow> 'a list" where
  "insert_sorted compare x [] = [x]"
| "insert_sorted compare x (y # ys) =
     (if compare x y \<le> 0 then x # y # ys else y # insert_sorted compare x ys)"

fun array_sort :: "('a \<Rightarrow> 'a \<Rightarrow> int) \<Rightarrow> 'a list \<Rightarrow> 'a list" where
  "array_sort compare [] = []"
| "array_sort compare (x # xs) = insert_sorted compare x (array_sort compare xs)"

text \<open>
  A consistent comparator: the sign flips when the arguments are swapped, and "not after"
  is transitive.
\<close>

definition consistent :: "('a \<Rightarrow> 'a \<Rightarrow> int) \<Rightarrow> bool" where
  "consistent compare \<longleftrightarrow>
     (\<forall>a b. (compare a b < 0) = (compare b a > 0)) \<and>
     (\<forall>a b c. compare a b \<le> 0 \<and> compare b c \<le> 0 \<longrightarrow> compare a c \<le> 0)"

text \<open>
  \<open>localeCompare\<close> without options, as the platform's default collation behaves on names
  made of ASCII letters, digits and spaces: the strings are first compared letter by
  letter without regard to case (a space before the digits, the digits before the
  letters); strings that agree there are ordered by case, a lower-case letter before its
  upper-case letter at the first place where the case differs. The weight of any other
  character is left unspecified.
\<close>

definition primary_weight :: "char \<Rightarrow> char" where
  "primary_weight c =
     (if lower_char c \<in> set '' 0123456789abcdefghijklmnopqrstuvwxyz'' then lower_char c
      else undefined c)"

definition case_weight :: "char \<Rightarrow> nat" where
  "case_weight c = (if c \<in> set ''ABCDEFGHIJKLMNOPQRSTUVWXYZ'' then 1 else 0)"

definition collation_key :: "string \<Rightarrow> string \<times> nat list" where
  "collation_key s = (map primary_weight s, map case_weight s)"

definition localeCompare_en :: "string \<Rightarrow> string \<Rightarrow> int" where
  "localeCompare_en a b =
     (if collation_key a < collation_key b then - 1
      else if collation_key a = collation_key b then 0
      else 1)"


section \<open>The station list (findDepartures.tsx)\<close>

record Station =
  station_id :: string
  station_name :: string
  latitude :: "real option"
  longitude :: "real option"
  station_system :: "string option"
  lines :: "string list option"

text \<open>
  The \<open>useMemo\<close> block of \<open>FindDeparturesCommand\<close>: \<open>forEach\<close> pushes each station on one
  of two arrays, then both are sorted by \<open>a.name.localeCompare(b.name)\<close>. \<open>isFavorite\<close>
  comes from the favourites hook.
\<close>

definition push_station ::
  "(string \<Rightarrow> bool) \<Rightarrow> Station list \<times> Station list \<Rightarrow> Station \<Rightarrow> Station list \<times> Station list" where
  "push_station isFavorite acc station =
     (case acc of (favorites, others) \<Rightarrow>
        if isFavorite (station_id station) then (favorites @ [station], others)
        else (favorites, others @ [station]))"

definition by_name :: "(string \<Rightarrow> string \<Rightarrow> int) \<Rightarrow> Station \<Rightarrow> Station \<Rightarrow> int" where
  "by_name localeCompare a b = localeCompare (station_name a) (station_name b)"

definition partitionStations ::
  "(string \<Rightarrow> string \<Rightarrow> int) \<Rightarrow> (string \<Rightarrow> bool) \<Rightarrow> Station list \<Rightarrow> Station list \<times> Station list" where
  "partitionStations localeCompare isFavorite allStations =
     (case foldl (push_station isFavorite) ([], []) allStations of
        (favorites, others) \<Rightarrow>
          (array_sort (by_name localeCompare) favorites, array_sort (by_name localeCompare) others))"



definition sample_station :: "string \<Rightarrow> string \<Rightarrow> Station" where
  "sample_station i n =
     \<lparr> station_id = i, station_name = n, latitude = None, longitude = None,
       station_system = Some ''SUBWAY'', lines = Some [''A'', ''C''] \<rparr>"


section \<open>Departure sections (components/StationDepartures.tsx)\<close>

text \<open>
  The group key of the \<open>reduce\<close>: \<open>dep.destinationBorough || "Outbound"\<close>. A null and an
  empty borough both give \<open>Outbound\<close>.
\<close>

definition borough_label :: "('t, 'm) Departure_scheme \<Rightarrow> string" where
  "borough_label dep =
     (case destinationBorough dep of
        Some b \<Rightarrow> if b \<noteq> [] then b else ''Outbound''
      | None \<Rightarrow> ''Outbound'')"

text \<open>What rendering can throw: the two built-in errors, or whatever a helper throws.\<close>

datatype js_error = TypeError | RangeError | Thrown thrown

text \<open>
  The accumulator of the \<open>reduce\<close> is a plain object. It is modelled by the list of its
  own properties in the order of their creation. Reading \<open>acc[borough]\<close> finds an own
  property, or else a member inherited from \<open>Object.prototype\<close> (a function, or the
  prototype itself for \<open>__proto__\<close>), or else \<open>undefined\<close>.
\<close>

definition Object_prototype_members :: "string list" where
  "Object_prototype_members =
     [''constructor'', ''__defineGetter__'', ''__defineSetter__'', ''hasOwnProperty'',
      ''__lookupGetter__'', ''__lookupSetter__'', ''isPrototypeOf'', ''propertyIsEnumerable'',
      ''toString'', ''valueOf'', ''__proto__'', ''toLocaleString'']"

datatype 'a property = Undefined | Inherited | Own 'a

definition get_property :: "(string \<times> 'a) list \<Rightarrow> string \<Rightarrow> 'a property" where
  "get_property obj k =
     (case map_of obj k of
        Some v \<Rightarrow> Own v
      | None \<Rightarrow> if k \<in> set Object_prototype_members then Inherited else Undefined)"

text \<open>
  One step of the \<open>reduce\<close>: \<open>if (!acc[borough]) acc[borough] = []\<close>, then
  \<open>acc[borough]?.push(dep)\<close>. An inherited member is truthy, so no group is created for
  it, and it has no \<open>push\<close>: the call throws a \<open>TypeError\<close>.
\<close>

definition group_step ::
  "(string \<times> ('t, 'm) Departure_scheme list) list \<Rightarrow> ('t, 'm) Departure_scheme \<Rightarrow>
   js_error + (string \<times> ('t, 'm) Departure_scheme list) list" where
  "group_step acc dep =
     (let borough = borough_label dep;
          acc = (if get_property acc borough = Undefined then acc @ [(borough, [])] else acc)
      in case get_property acc borough of
           Own departures \<Rightarrow>
             Inr (map (\<lambda>(k, ds). if k = borough then (k, ds @ [dep]) else (k, ds)) acc)
         | Inherited \<Rightarrow> Inl TypeError
         | Undefined \<Rightarrow> Inr acc)"

fun reduce_groups ::
  "(string \<times> ('t, 'm) Departure_scheme list) list \<Rightarrow> ('t, 'm) Departure_scheme list \<Rightarrow>
   js_error + (string \<times> ('t, 'm) Departure_scheme list) list" where
  "reduce_groups acc [] = Inr acc"
| "reduce_groups acc (dep # deps) =
     (case group_step acc dep of
        Inl e \<Rightarrow> Inl e
      | Inr acc' \<Rightarrow> reduce_groups acc' deps)"

definition groupByBorough ::
  "('t, 'm) Departure_scheme list \<Rightarrow> js_error + (string \<times> ('t, 'm) Departure_scheme list) list" where
  "groupByBorough processedDepartures = reduce_groups [] processedDepartures"

text \<open>
  \<open>Object.entries\<close> lists the own properties whose names are array indices first, in
  ascending numeric order, and then the other names in the order of their creation. An
  array index is the canonical decimal string of an integer from 0 to \<open>2^32 - 2\<close>.
\<close>

definition digit_value :: "char \<Rightarrow> nat" where
  "digit_value c =
     (case map_of (zip ''0123456789'' [0, 1, 2, 3, 4, 5, 6, 7, 8, 9]) c of
        Some d \<Rightarrow> d
      | None \<Rightarrow> 0)"

definition parse_nat :: "string \<Rightarrow> nat" where
  "parse_nat s = foldl (\<lambda>n c. 10 * n + digit_value c) 0 s"

definition is_array_index :: "string \<Rightarrow> bool" where
  "is_array_index k \<longleftrightarrow> toString_nat (parse_nat k) = k \<and> parse_nat k < 4294967295"

definition Object_entries :: "(string \<times> 'a) list \<Rightarrow> (string \<times> 'a) list" where
  "Object_entries obj =
     sort_key (\<lambda>entry. parse_nat (fst entry)) (filter (\<lambda>entry. is_array_index (fst entry)) obj) @
     filter (\<lambda>entry. \<not> is_array_index (fst entry)) obj"

text \<open>The comparator given to \<open>sort\<close>: it looks at the two group labels and the station's system.\<close>

definition section_compare ::
  "(string \<Rightarrow> string \<Rightarrow> int) \<Rightarrow> FilterableSystem \<Rightarrow> string \<times> 'a \<Rightarrow> string \<times> 'a \<Rightarrow> int" where
  "section_compare localeCompare sys a b =
     (let boroughA = fst a; boroughB = fst b in
      if sys = LIRR \<or> sys = MNR then
        (if boroughA = ''Outbound'' then - 1
         else if boroughB = ''Outbound'' then 1
         else 0)
      else localeCompare boroughA boroughB)"

record 'd Section =
  section_key :: string
  section_title :: string
  section_items :: "'d list"

text \<open>The \<open>map\<close> after the sort: an empty group renders nothing (\<open>null\<close>).\<close>

definition render_section :: "string \<times> 'd list \<Rightarrow> 'd Section option" where
  "render_section entry =
     (case entry of (borough, departuresInSection) \<Rightarrow>
        if departuresInSection = [] then None
        else Some \<lparr> section_key = borough,
                    section_title = (if borough = ''Outbound'' then ''Outbound Departures''
                                     else borough @ ''-Bound Departures''),
                    section_items = departuresInSection \<rparr>)"

text \<open>The sections in their order on screen, each with its departures, or the error thrown by the grouping.\<close>

definition departure_sections ::
  "(string \<Rightarrow> string \<Rightarrow> int) \<Rightarrow> FilterableSystem \<Rightarrow> ('t, 'm) Departure_scheme list \<Rightarrow>
   js_error + ('t, 'm) Departure_scheme Section list" where
  "departure_sections localeCompare sys processedDepartures =
     (case groupByBorough processedDepartures of
        Inl e \<Rightarrow> Inl e
      | Inr groups \<Rightarrow>
          Inr (List.map_filter render_section
                 (array_sort (section_compare localeCompare sys) (Object_entries groups))))"

definition section_labels ::
  "(string \<Rightarrow> string \<Rightarrow> int) \<Rightarrow> FilterableSystem \<Rightarrow> ('t, 'm) Departure_scheme list \<Rightarrow>
   js_error + string list" where
  "section_labels localeCompare sys processedDepartures =
     (case departure_sections localeCompare sys processedDepartures of
        Inl e \<Rightarrow> Inl e
      | Inr sections \<Rightarrow> Inr (map section_key sections))"

text \<open>
  The order of first encounter of the labels of a list, for stating the ordering rule:
  each label once, at the place of its first occurrence.
\<close>

definition encounter_order :: "'a list \<Rightarrow> 'a list" where
  "encounter_order ls = rev (remdups (rev ls))"

text \<open>
  For the proofs: the step and the grouping when no label names a member of
  \<open>Object.prototype\<close>, where nothing is thrown.
\<close>

definition push_group ::
  "(string \<times> ('t, 'm) Departure_scheme list) list \<Rightarrow> ('t, 'm) Departure_scheme \<Rightarrow>
   (string \<times> ('t, 'm) Departure_scheme list) list" where
  "push_group acc dep =
     (let borough = borough_label dep;
          acc = (if map_of acc borough = None then acc @ [(borough, [])] else acc)
      in map (\<lambda>(k, ds). if k = borough then (k, ds @ [dep]) else (k, ds)) acc)"

definition plain_groups ::
  "('t, 'm) Departure_scheme list \<Rightarrow> (string \<times> ('t, 'm) Departure_scheme list) list" where
  "plain_groups deps = foldl push_group [] deps"


section \<open>The station cache (findDepartures.tsx, the revision that caches)\<close>

datatype SystemFilterValue = AllSystems | System FilterableSystem

fun filterValueToApiParam :: "SystemFilterValue \<Rightarrow> FilterableSystem option" where
  "filterValueToApiParam AllSystems = None"
| "filterValueToApiParam (System s) = Some s"

definition STATION_LIST_CACHE_TTL :: int where
  "STATION_LIST_CACHE_TTL = 7 * 24 * 60 * 60 * 1000"

text \<open>
  The two items of \<open>LocalStorage\<close> that the command uses, under the constant keys
  \<open>STATION_LIST_CACHE_KEY = "cachedStationList"\<close> and
  \<open>STATION_LIST_TIMESTAMP_KEY = "cachedStationListTimestamp"\<close>. An item is absent
  (\<open>None\<close>) or holds what the command wrote there: \<open>JSON.stringify(stations)\<close>, kept as the
  list that \<open>JSON.parse\<close> gives back, and \<open>Date.now().toString()\<close>, kept as the number
  that \<open>parseInt\<close> gives back. Times are milliseconds since the epoch.
\<close>

record LocalStorage =
  cachedStationList :: "Station list option"
  cachedStationListTimestamp :: "int option"

datatype ToastStyle = Animated | Success | Failure

record Toast =
  style :: ToastStyle
  title :: string
  toast_message :: "string option"

type_synonym URLSearchParams = "(string \<times> string) list"

text \<open>
  \<open>fetchStations\<close>: the parameters appended to \<open>/stations\<close>, in order. The network is
  \<open>wrapper\<close>, the outcome of \<open>fetchFromWrapper<Station[]>\<close> for a parameter list; \<open>now\<close> is
  \<open>Date.now()\<close>, read for the cache-busting parameter. The result pairs the request with
  its outcome.
\<close>

definition fetchStations ::
  "(URLSearchParams \<Rightarrow> APIError + Station list) \<Rightarrow> int \<Rightarrow>
   string option \<Rightarrow> FilterableSystem option \<Rightarrow> bool \<Rightarrow>
   URLSearchParams \<times> (APIError + Station list)" where
  "fetchStations wrapper now query sys forceRefresh =
     (let params = [];
          params = (case query of
                      Some q \<Rightarrow> if q \<noteq> [] then params @ [(''q'', q)] else params
                    | None \<Rightarrow> params);
          params = (case sys of
                      Some s \<Rightarrow> params @ [(''system'', system_name s)]
                    | None \<Rightarrow> params);
          params = (if forceRefresh then params @ [(''_'', toString_int now)] else params)
      in (params, wrapper params))"

text \<open>
  The state of \<open>FindDeparturesCommand\<close>: its React state, the local storage, the toasts
  shown and the requests sent so far.
\<close>

record FindDeparturesCommand =
  searchText :: string
  selectedSystem :: SystemFilterValue
  allStations :: "Station list"
  isLoading :: bool
  localStorage :: LocalStorage
  toasts :: "Toast list"
  requests :: "URLSearchParams list"

text \<open>
  \<open>loadStations\<close>. \<open>now\<close> is the clock at the freshness test, \<open>now_stored\<close> the clock when
  the fetched list is cached. A missing timestamp counts as 0, and 0 is falsy.
\<close>

definition loadStations ::
  "(URLSearchParams \<Rightarrow> APIError + Station list) \<Rightarrow> int \<Rightarrow> int \<Rightarrow>
   string \<Rightarrow> SystemFilterValue \<Rightarrow> FindDeparturesCommand \<Rightarrow> FindDeparturesCommand" where
  "loadStations wrapper now now_stored currentSearchText systemFilterValue st0 =
     (let st = st0\<lparr>isLoading := True\<rparr>;
          apiSystemFilter = filterValueToApiParam systemFilterValue;
          timestamp = (case cachedStationListTimestamp (localStorage st) of
                         Some t \<Rightarrow> t
                       | None \<Rightarrow> 0);
          fetched =
            (case fetchStations wrapper now (Some currentSearchText) apiSystemFilter False of
               (params, Inr stations) \<Rightarrow>
                 st\<lparr> requests := requests st @ [params],
                     localStorage := \<lparr>cachedStationList = Some stations,
                                       cachedStationListTimestamp = Some now_stored\<rparr>,
                     allStations := stations,
                     isLoading := False \<rparr>
             | (params, Inl err) \<Rightarrow>
                 st\<lparr> requests := requests st @ [params],
                     toasts := toasts st @
                       [\<lparr>style = Failure, title = ''Error Loading Stations'',
                         toast_message = Some (message err)\<rparr>],
                     allStations := [],
                     isLoading := False \<rparr>)
      in
        if timestamp \<noteq> 0 \<and> now - timestamp < STATION_LIST_CACHE_TTL then
          (case cachedStationList (localStorage st) of
             Some stations \<Rightarrow> st\<lparr>allStations := stations, isLoading := False\<rparr>
           | None \<Rightarrow> fetched)
        else fetched)"

text \<open>
  \<open>handleRefresh\<close>: both items are removed, then the list is fetched with the
  \<open>forceRefresh\<close> flag; \<open>now\<close> is the clock inside \<open>fetchStations\<close>, \<open>now_stored\<close> the clock
  when the new list is cached.
\<close>

definition handleRefresh ::
  "(URLSearchParams \<Rightarrow> APIError + Station list) \<Rightarrow> int \<Rightarrow> int \<Rightarrow>
   FindDeparturesCommand \<Rightarrow> FindDeparturesCommand" where
  "handleRefresh wrapper now now_stored st0 =
     (let st = st0\<lparr>toasts := toasts st0 @
                   [\<lparr>style = Animated, title = ''Refreshing station list...'',
                     toast_message = None\<rparr>]\<rparr>;
          st = st\<lparr>localStorage := \<lparr>cachedStationList = None,
                                    cachedStationListTimestamp = None\<rparr>\<rparr>;
          st = st\<lparr>isLoading := True\<rparr>;
          apiSystemFilter = filterValueToApiParam (selectedSystem st)
      in
        case fetchStations wrapper now (Some (searchText st)) apiSystemFilter True of
          (params, Inr stations) \<Rightarrow>
            st\<lparr> requests := requests st @ [params],
                localStorage := \<lparr>cachedStationList = Some stations,
                                  cachedStationListTimestamp = Some now_stored\<rparr>,
                allStations := stations,
                toasts := toasts st @
                  [\<lparr>style = Success, title = ''Station list refreshed'', toast_message = None\<rparr>],
                isLoading := False \<rparr>
        | (params, Inl err) \<Rightarrow>
            st\<lparr> requests := requests st @ [params],
                toasts := toasts st @
                  [\<lparr>style = Failure, title = ''Failed to refresh station list'',
                    toast_message = Some (message err)\<rparr>],
                isLoading := False \<rparr>)"


section \<open>Loading departures (components/StationDepartures.tsx)\<close>

record StationRef =
  ref_id :: string
  ref_name :: string
  ref_system :: FilterableSystem

record 'date StationDepartures =
  station :: StationRef
  selectedLimit :: int
  processedDepartures :: "'date ProcessedDeparture list"
  error :: "string option"
  sd_isLoading :: bool
  sd_toasts :: "Toast list"
  sd_requests :: "string list"

text \<open>The initial state: \<open>useState(limitMinutes || 60)\<close>, nothing loaded yet.\<close>

definition initial_StationDepartures :: "StationRef \<Rightarrow> int option \<Rightarrow> 'date StationDepartures" where
  "initial_StationDepartures st limitMinutes =
     \<lparr> station = st,
       selectedLimit = (case limitMinutes of Some l \<Rightarrow> if l \<noteq> 0 then l else 60 | None \<Rightarrow> 60),
       processedDepartures = [],
       error = None,
       sd_isLoading = True,
       sd_toasts = [],
       sd_requests = [] \<rparr>"

definition loadDepartures ::
  "(string \<Rightarrow> 'date) \<Rightarrow> (string \<Rightarrow> APIError + string Departure list) \<Rightarrow> bool \<Rightarrow>
   'date StationDepartures \<Rightarrow> 'date StationDepartures" where
  "loadDepartures new_Date wrapper showLoadingToast st0 =
     (let st = st0\<lparr>sd_isLoading := True, error := None\<rparr>;
          st = (if showLoadingToast
                then st\<lparr>sd_toasts := sd_toasts st @
                        [\<lparr>style = Animated, title = ''Refreshing Departures...'',
                          toast_message = None\<rparr>]\<rparr>
                else st);
          limitParam = (if selectedLimit st > 0 then Some (selectedLimit st) else None)
      in
        case fetchDepartures new_Date wrapper (ref_id (station st)) limitParam None of
          (reqs, Inr departuresWithDates) \<Rightarrow>
            (let st = st\<lparr>sd_requests := sd_requests st @ reqs,
                         processedDepartures := departuresWithDates\<rparr>;
                 st = (if showLoadingToast
                       then st\<lparr>sd_toasts := sd_toasts st @
                               [\<lparr>style = Success, title = ''Departures Updated'',
                                 toast_message = None\<rparr>]\<rparr>
                       else st)
             in st\<lparr>sd_isLoading := False\<rparr>)
        | (reqs, Inl err) \<Rightarrow>
            st\<lparr> sd_requests := sd_requests st @ reqs,
                error := Some (message err),
                sd_toasts := sd_toasts st @
                  [\<lparr>style = Failure, title = ''Error'', toast_message = Some (message err)\<rparr>],
                processedDepartures := [],
                sd_isLoading := False \<rparr>)"

text \<open>
  A date value: \<open>new Date(text)\<close> is a valid date with its time in milliseconds, or the
  Invalid Date when the text does not parse.
\<close>

datatype Date = ValidDate int | InvalidDate

text \<open>
  One \<open>List.Item\<close>. Its props are evaluated in the order written: the key (where
  \<open>toISOString\<close> throws a \<open>RangeError\<close> on the Invalid Date), the title, the accessories
  (route tag, track, peak tag, the time text from \<open>formatDepartureTime\<close>, the status
  accessory) and the actions (with the departure handed to the details view and the text
  from \<open>getCopyContent\<close>). \<open>formatDepartureTime\<close> and \<open>getCopyContent\<close> are helpers of
  \<open>utils/dateUtils\<close>; they and the platform's \<open>toISOString\<close> on a valid date are
  parameters.
\<close>

datatype ItemAccessory =
    RouteTag string "string option"
  | TrackText string
  | PeakTag string
  | TimeText string
  | StatusAccessory Accessory

record 'd Item =
  item_key :: string
  item_title :: string
  item_accessories :: "ItemAccessory list"
  details_departure :: 'd
  copy_content :: string

definition truthy :: "string option \<Rightarrow> bool" where
  "truthy s = (case s of Some t \<Rightarrow> t \<noteq> [] | None \<Rightarrow> False)"

definition or_else :: "string option \<Rightarrow> string \<Rightarrow> string" where
  "or_else s d = (case s of Some t \<Rightarrow> if t \<noteq> [] then t else d | None \<Rightarrow> d)"

definition render_item ::
  "(int \<Rightarrow> string) \<Rightarrow> (Date option \<Rightarrow> js_error + string) \<Rightarrow>
   (Date ProcessedDeparture \<Rightarrow> js_error + string) \<Rightarrow>
   Date ProcessedDeparture \<Rightarrow> js_error + Date ProcessedDeparture Item" where
  "render_item toISOString formatDepartureTime getCopyContent dep =
     (case (case departureTime dep of
              None \<Rightarrow> Inr None
            | Some InvalidDate \<Rightarrow> Inl RangeError
            | Some (ValidDate t) \<Rightarrow> Inr (Some (toISOString t))) of
        Inl e \<Rightarrow> Inl e
      | Inr iso_text \<Rightarrow>
          (case formatDepartureTime (departureTime dep) of
             Inl e \<Rightarrow> Inl e
           | Inr time \<Rightarrow>
               (case getCopyContent dep of
                  Inl e \<Rightarrow> Inl e
                | Inr content \<Rightarrow>
                    Inr \<lparr> item_key = or_else (tripId dep) ''no-trip'' @ ''-'' @
                                     or_else (routeId dep) ''no-route'' @ ''-'' @
                                     or_else iso_text ''no-time'',
                          item_title = destination dep,
                          item_accessories =
                            (if truthy (routeShortName dep) \<and> truthy (routeLongName dep)
                             then [RouteTag (the (routeShortName dep) @ '': '' @ the (routeLongName dep))
                                     (if truthy (routeColor dep)
                                      then Some (CHR ''#'' # the (routeColor dep)) else None)]
                             else if truthy (routeLongName dep)
                             then [RouteTag (the (routeLongName dep))
                                     (if truthy (routeColor dep)
                                      then Some (CHR ''#'' # the (routeColor dep)) else None)]
                             else []) @
                            (if truthy (track dep) then [TrackText (''Track '' @ the (track dep))]
                             else []) @
                            (if peakStatus dep = Some ''Peak'' then [PeakTag ''Peak''] else []) @
                            [TimeText time, StatusAccessory (getStatusAccessory (status dep))],
                          details_departure = dep,
                          copy_content = content \<rparr>)))"

fun render_items :: "('d \<Rightarrow> js_error + 'i) \<Rightarrow> 'd list \<Rightarrow> js_error + 'i list" where
  "render_items render [] = Inr []"
| "render_items render (d # ds) =
     (case render d of
        Inl e \<Rightarrow> Inl e
      | Inr item \<Rightarrow>
          (case render_items render ds of
             Inl e \<Rightarrow> Inl e
           | Inr items \<Rightarrow> Inr (item # items)))"

text \<open>
  The sections on screen with their items. They are rendered when the view is not
  loading, has no error and has departures; the first error thrown on the way ends the
  render.
\<close>

definition displayed_sections ::
  "(string \<Rightarrow> string \<Rightarrow> int) \<Rightarrow> (int \<Rightarrow> string) \<Rightarrow> (Date option \<Rightarrow> js_error + string) \<Rightarrow>
   (Date ProcessedDeparture \<Rightarrow> js_error + string) \<Rightarrow> Date StationDepartures \<Rightarrow>
   js_error + Date ProcessedDeparture Item Section list" where
  "displayed_sections localeCompare toISOString formatDepartureTime getCopyContent st =
     (if \<not> sd_isLoading st \<and> error st = None \<and> processedDepartures st \<noteq> []
      then
        (case departure_sections localeCompare (ref_system (station st)) (processedDepartures st) of
           Inl e \<Rightarrow> Inl e
         | Inr sections \<Rightarrow>
             render_items
               (\<lambda>sec. case render_items (render_item toISOString formatDepartureTime getCopyContent)
                              (section_items sec) of
                         Inl e \<Rightarrow> Inl e
                       | Inr items \<Rightarrow>
                           Inr \<lparr> section_key = section_key sec,
                                 section_title = section_title sec,
                                 section_items = items \<rparr>)
               sections)
      else Inr [])"

text \<open>The departures on screen: those of the items of the sections.\<close>

definition displayed_departures ::
  "(string \<Rightarrow> string \<Rightarrow> int) \<Rightarrow> (int \<Rightarrow> string) \<Rightarrow> (Date option \<Rightarrow> js_error + string) \<Rightarrow>
   (Date ProcessedDeparture \<Rightarrow> js_error + string) \<Rightarrow> Date StationDepartures \<Rightarrow>
   js_error + Date ProcessedDeparture list" where
  "displayed_departures localeCompare toISOString formatDepartureTime getCopyContent st =
     (case displayed_sections localeCompare toISOString formatDepartureTime getCopyContent st of
        Inl e \<Rightarrow> Inl e
      | Inr sections \<Rightarrow>
          Inr (concat (map (\<lambda>sec. map details_departure (section_items sec)) sections)))"

text \<open>
  The time-window rule in the specification's words: a departure is included when the
  limit is unbounded (0 or absent), or its time is unknown, or its time is at most
  \<open>now\<close> plus the limit (minutes, times in milliseconds).
\<close>

definition within_time_window :: "int option \<Rightarrow> int \<Rightarrow> int option \<Rightarrow> bool" where
  "within_time_window limit now departure_time =
     (case limit of
        None \<Rightarrow> True
      | Some l \<Rightarrow>
          l = 0 \<or> (case departure_time of None \<Rightarrow> True | Some t \<Rightarrow> t \<le> now + l * 60 * 1000))"


definition sample_list :: "Station list" where
  "sample_list = [sample_station ''3'' ''Wall St'', sample_station ''1'' ''Astor Pl'',
                  sample_station ''2'' ''Canal St'', sample_station ''4'' ''Astor Pl'',
                  sample_station ''5'' ''Bowling Green'']"

definition sample_isFavorite :: "string \<Rightarrow> bool" where
  "sample_isFavorite i = (i \<in> {''2'', ''5''})"


definition sample_state :: "LocalStorage \<Rightarrow> FindDeparturesCommand" where
  "sample_state ls =
     \<lparr> searchText = [], selectedSystem = AllSystems, allStations = [], isLoading = False,
       localStorage = ls, toasts = [], requests = [] \<rparr>"

definition failing_wrapper :: "URLSearchParams \<Rightarrow> APIError + Station list" where
  "failing_wrapper params = Inl \<lparr>message = ''fetch failed'', statusCode = None\<rparr>"

text \<open>A server that answers the SUBWAY filter with one station and everything else with the sample list.\<close>

definition sample_server :: "URLSearchParams \<Rightarrow> APIError + Station list" where
  "sample_server params =
     (if (''system'', ''SUBWAY'') \<in> set params then Inr [sample_station ''2'' ''Canal St'']
      else Inr sample_list)"

definition sample_ref :: StationRef where
  "sample_ref = \<lparr>ref_id = ''237'', ref_name = ''Penn Station'', ref_system = LIRR\<rparr>"

text \<open>
  Stand-ins for the \<open>Date\<close> constructor and for \<open>toISOString\<close> on the one timestamp of the
  instances below (12:45 UTC on 3 November 2026, in milliseconds since the epoch; any
  other text counts as unparseable), and helpers that format without throwing.
\<close>

definition sample_new_Date :: "string \<Rightarrow> Date" where
  "sample_new_Date t =
     (if t = ''2026-11-03T12:45:00.000Z'' then ValidDate 1793709900000 else InvalidDate)"

definition sample_toISOString :: "int \<Rightarrow> string" where
  "sample_toISOString t = ''2026-11-03T12:45:00.000Z''"

definition sample_formatDepartureTime :: "Date option \<Rightarrow> js_error + string" where
  "sample_formatDepartureTime t = Inr ''12:45 PM''"

definition sample_getCopyContent :: "Date ProcessedDeparture \<Rightarrow> js_error + string" where
  "sample_getCopyContent dep = Inr (destination dep)"



section \<open>Properties of the status mapping\<close>

lemma startsWith_iff: "startsWith s p \<longleftrightarrow> (\<exists>after. s = p @ after)"
  by (induction s p rule: startsWith.induct) auto

lemma includes_iff: "includes_str s p \<longleftrightarrow> (\<exists>before after. s = before @ p @ after)"
proof (induction s)
  case Nil
  then show ?case by auto
next
  case (Cons c cs)
  show ?case
  proof
    assume "includes_str (c # cs) p"
    then consider "startsWith (c # cs) p" | "includes_str cs p" by auto
    then show "\<exists>before after. c # cs = before @ p @ after"
    proof cases
      case 1
      then obtain after where "c # cs = p @ after" by (auto simp: startsWith_iff)
      then have "c # cs = [] @ p @ after" by simp
      then show ?thesis by blast
    next
      case 2
      then obtain before after where "cs = before @ p @ after" using Cons.IH by blast
      then have "c # cs = (c # before) @ p @ after" by simp
      then show ?thesis by blast
    qed
  next
    assume "\<exists>before after. c # cs = before @ p @ after"
    then obtain before after where split: "c # cs = before @ p @ after" by blast
    show "includes_str (c # cs) p"
    proof (cases before)
      case Nil
      with split have "startsWith (c # cs) p" by (auto simp: startsWith_iff)
      then show ?thesis by simp
    next
      case (Cons b bs)
      with split have "cs = bs @ p @ after" by simp
      then have "includes_str cs p" using Cons.IH by blast
      then show ?thesis by simp
    qed
  qed
qed

lemma includes_lower_contains_ci: "includes_str (toLowerCase s) p = contains_ci s p"
  by (simp add: includes_iff contains_ci_def)

text \<open>
  Claim C8. For every status string, the accessory built by \<open>getStatusAccessory\<close> falls in
  the display category given by case-insensitive substring matching with first match
  winning: "delay" is Delayed, otherwise "cancel" is Cancelled, otherwise "on time" is
  OnTime, otherwise the raw status text, unchanged.
\<close>

theorem status_category_first_match:
  "display_category (getStatusAccessory s) = spec_status_category s"
  by (simp add: getStatusAccessory_def display_category_def spec_status_category_def
      includes_lower_contains_ci Let_def)

text \<open>The examples of the specification, obtained from the theorem.\<close>

theorem status_category_examples:
  "spec_status_category ''Delayed 5 min'' = Delayed \<and>
   spec_status_category ''On Time'' = OnTime \<and>
   spec_status_category ''Train Cancelled'' = Cancelled \<and>
   spec_status_category ''Scheduled'' = Raw ''Scheduled''"
  using status_category_first_match [of "''Delayed 5 min''", symmetric]
        status_category_first_match [of "''On Time''", symmetric]
        status_category_first_match [of "''Train Cancelled''", symmetric]
        status_category_first_match [of "''Scheduled''", symmetric]
  by (simp add: getStatusAccessory_def display_category_def toLowerCase_def lower_char_def)


section \<open>Properties of fetchDepartures\<close>

lemma departures_endpoint_no_limit:
  assumes "limitMinutes = None \<or> (\<exists>l. limitMinutes = Some l \<and> l \<le> 0)"
  shows "departures_endpoint stationId limitMinutes src =
           ''/departures/'' @ stationId @
           (case src of Some s \<Rightarrow> ''&source='' @ source_name s | None \<Rightarrow> [])"
  using assms by (auto simp: departures_endpoint_def split: option.splits)

lemma source_name_no_query_mark: "CHR ''?'' \<notin> set (source_name s)"
  by (cases s) simp_all

text \<open>
  Claim C9. When \<open>fetchDepartures\<close> is called with a source but with \<open>limitMinutes\<close> absent
  or not positive, the request path it constructs is \<open>/departures/{stationId}&source=...\<close>:
  the source parameter follows an ampersand and no question mark is put before it (the
  path has a question mark only if the station id has one). That path is the one request
  sent, unless the station id is empty, in which case nothing is sent.
\<close>

theorem fetchDepartures_source_without_query_mark:
  assumes "limitMinutes = None \<or> (\<exists>l. limitMinutes = Some l \<and> l \<le> 0)"
  shows "departures_endpoint stationId limitMinutes (Some s) =
           ''/departures/'' @ stationId @ ''&source='' @ source_name s
       \<and> (CHR ''?'' \<notin> set stationId \<longrightarrow>
              CHR ''?'' \<notin> set (departures_endpoint stationId limitMinutes (Some s)))
       \<and> (stationId \<noteq> [] \<longrightarrow>
              fst (fetchDepartures new_Date wrapper stationId limitMinutes (Some s)) =
                [''/departures/'' @ stationId @ ''&source='' @ source_name s])"
proof -
  have path: "departures_endpoint stationId limitMinutes (Some s) =
                ''/departures/'' @ stationId @ ''&source='' @ source_name s"
    using assms by (simp add: departures_endpoint_no_limit)
  have sent: "fst (fetchDepartures new_Date wrapper stationId limitMinutes (Some s)) =
          [departures_endpoint stationId limitMinutes (Some s)]" if "stationId \<noteq> []"
    using that by (simp add: fetchDepartures_def Let_def split: sum.splits)
  from path sent show ?thesis
    by (simp add: source_name_no_query_mark)
qed

theorem fetchDepartures_source_without_query_mark_witness:
  "departures_endpoint ''237'' None (Some realtime) = ''/departures/237&source=realtime''
   \<and> fst (fetchDepartures (\<lambda>t. t) (sample_wrapper []) ''237'' None (Some realtime)) =
     [''/departures/237&source=realtime'']
   \<and> fst (fetchDepartures (\<lambda>t. t) (sample_wrapper []) ''237'' (Some 0) (Some scheduled)) =
     [''/departures/237&source=scheduled'']
   \<and> CHR ''?'' \<notin> set (departures_endpoint ''237'' (Some 0) (Some scheduled))"
  using fetchDepartures_source_without_query_mark
          [where stationId = "''237''" and limitMinutes = None and new_Date = "\<lambda>t. t"
             and wrapper = "sample_wrapper []" and s = realtime]
        fetchDepartures_source_without_query_mark
          [where stationId = "''237''" and limitMinutes = "Some 0" and new_Date = "\<lambda>t. t"
             and wrapper = "sample_wrapper []" and s = scheduled]
  by simp

lemma processDeparture_delay:
  "delayMinutes (processDeparture new_Date dep) =
     (case delayMinutes dep of Some d \<Rightarrow> if d = 0 then None else Some d | None \<Rightarrow> None)"
  by (simp add: processDeparture_def split: option.splits)

text \<open>
  Claim C10. In the processed result of \<open>fetchDepartures\<close>, a raw departure whose
  \<open>delayMinutes\<close> is 0 has \<open>delayMinutes\<close> null, and a raw departure with a nonzero
  \<open>delayMinutes\<close> keeps that number; and with an empty station id the call returns the
  empty list and issues no request.
\<close>

theorem fetchDepartures_zero_delay_and_empty_id:
  "(stationId \<noteq> [] \<and> wrapper (departures_endpoint stationId limitMinutes src) = Inr raw \<longrightarrow>
      (\<exists>ps. snd (fetchDepartures new_Date wrapper stationId limitMinutes src) = Inr ps
         \<and> length ps = length raw
         \<and> (\<forall>i < length raw.
               (delayMinutes (raw ! i) = Some 0 \<longrightarrow> delayMinutes (ps ! i) = None)
             \<and> (\<forall>d. d \<noteq> 0 \<and> delayMinutes (raw ! i) = Some d \<longrightarrow>
                    delayMinutes (ps ! i) = Some d))))
   \<and> fetchDepartures new_Date wrapper [] limitMinutes src = ([], Inr [])"
proof (intro conjI impI)
  assume call: "stationId \<noteq> [] \<and> wrapper (departures_endpoint stationId limitMinutes src) = Inr raw"
  let ?ps = "map (processDeparture new_Date) raw"
  have "snd (fetchDepartures new_Date wrapper stationId limitMinutes src) = Inr ?ps"
    using call by (simp add: fetchDepartures_def Let_def)
  moreover have "length ?ps = length raw" by simp
  moreover have "\<forall>i < length raw.
      (delayMinutes (raw ! i) = Some 0 \<longrightarrow> delayMinutes (?ps ! i) = None)
    \<and> (\<forall>d. d \<noteq> 0 \<and> delayMinutes (raw ! i) = Some d \<longrightarrow> delayMinutes (?ps ! i) = Some d)"
    by (simp add: processDeparture_delay)
  ultimately show "\<exists>ps. snd (fetchDepartures new_Date wrapper stationId limitMinutes src) = Inr ps
         \<and> length ps = length raw
         \<and> (\<forall>i < length raw.
               (delayMinutes (raw ! i) = Some 0 \<longrightarrow> delayMinutes (ps ! i) = None)
             \<and> (\<forall>d. d \<noteq> 0 \<and> delayMinutes (raw ! i) = Some d \<longrightarrow>
                    delayMinutes (ps ! i) = Some d))"
    by blast
next
  show "fetchDepartures new_Date wrapper [] limitMinutes src = ([], Inr [])"
    by (simp add: fetchDepartures_def)
qed

theorem fetchDepartures_zero_delay_and_empty_id_witness:
  "(\<exists>ps. snd (fetchDepartures (\<lambda>t. t)
                (sample_wrapper [sample_departure None (Some 0) None,
                                 sample_departure None (Some 5) None])
                ''237'' None None) = Inr ps
         \<and> length ps = 2
         \<and> delayMinutes (ps ! 0) = None
         \<and> delayMinutes (ps ! 1) = Some 5)
   \<and> fetchDepartures (\<lambda>t. t)
         (sample_wrapper [sample_departure None (Some 0) None]) [] None None = ([], Inr [])"
proof -
  let ?raw = "[sample_departure None (Some 0) None, sample_departure None (Some 5) None]"
  have zero: "delayMinutes (?raw ! 0) = Some 0" and five: "delayMinutes (?raw ! 1) = Some 5"
    by (simp_all add: sample_departure_def)
  have call: "''237'' \<noteq> [] \<and> sample_wrapper ?raw (departures_endpoint ''237'' None None) = Inr ?raw"
    by (simp add: sample_wrapper_def)
  from fetchDepartures_zero_delay_and_empty_id
         [of "''237''" "sample_wrapper ?raw" None None ?raw "\<lambda>t. t"] call
  obtain ps where ps: "snd (fetchDepartures (\<lambda>t. t) (sample_wrapper ?raw) ''237'' None None) = Inr ps"
      "length ps = length ?raw"
      "\<forall>i < length ?raw.
          (delayMinutes (?raw ! i) = Some 0 \<longrightarrow> delayMinutes (ps ! i) = None)
        \<and> (\<forall>d. d \<noteq> 0 \<and> delayMinutes (?raw ! i) = Some d \<longrightarrow> delayMinutes (ps ! i) = Some d)"
    by blast
  from ps(3) zero have "delayMinutes (ps ! 0) = None" by simp
  moreover from ps(3) five have "delayMinutes (ps ! 1) = Some 5" by simp
  moreover have "fetchDepartures (\<lambda>t. t)
         (sample_wrapper [sample_departure None (Some 0) None]) [] None None = ([], Inr [])"
    using fetchDepartures_zero_delay_and_empty_id
            [of "[]" "sample_wrapper [sample_departure None (Some 0) None]" None None "[]" "\<lambda>t. t"]
    by simp
  ultimately show ?thesis using ps(1,2) by simp
qed


section \<open>Properties of the API client\<close>

lemma typeof_string_cases: "typeof v = ''string'' \<longleftrightarrow> (\<exists>m. v = JString m)"
  by (cases v) auto

text \<open>
  \<open>isErrorResponse\<close> accepts exactly the envelope shape: an object whose \<open>error\<close> property
  is an object whose \<open>message\<close> property is a string.
\<close>

lemma isErrorResponse_shape:
  "isErrorResponse data \<longleftrightarrow>
     (\<exists>fs efs m. data = JObject fs \<and> map_of fs ''error'' = Some (JObject efs)
                \<and> map_of efs ''message'' = Some (JString m))"
proof
  assume "isErrorResponse data"
  then obtain err msg where
      e: "get_prop data ''error'' = Some err" and
      m: "get_prop err ''message'' = Some msg" "typeof msg = ''string''"
    by (auto simp: isErrorResponse_def split: if_splits option.splits)
  from e obtain fs where fs: "data = JObject fs" by (cases data) auto
  from m(1) obtain efs where efs: "err = JObject efs" by (cases err) auto
  from m(2) obtain t where "msg = JString t" by (auto simp: typeof_string_cases)
  with fs efs e m(1)
  show "\<exists>fs efs m. data = JObject fs \<and> map_of fs ''error'' = Some (JObject efs)
                \<and> map_of efs ''message'' = Some (JString m)"
    by auto
next
  assume "\<exists>fs efs m. data = JObject fs \<and> map_of fs ''error'' = Some (JObject efs)
                \<and> map_of efs ''message'' = Some (JString m)"
  then obtain fs efs m where "data = JObject fs" "map_of fs ''error'' = Some (JObject efs)"
     "map_of efs ''message'' = Some (JString m)" by blast
  then show "isErrorResponse data"
    by (auto simp: isErrorResponse_def dest: map_of_SomeD intro: rev_image_eqI)
qed

text \<open>Whatever the status and the content type, a parsed body of envelope shape is never returned as data.\<close>

lemma fetchFromWrapper_envelope_never_data:
  assumes "fetch (API_BASE_URL @ endpoint) = Responded r"
    and "json_body r = Inr data" and "isErrorResponse data"
  shows "\<exists>e. fetchFromWrapper API_BASE_URL fetch endpoint = Inl e"
  using assms by (simp add: fetchFromWrapper_def Let_def split: option.splits)

text \<open>
  Claim C4, as amended. For every HTTP response delivered with a JSON content type whose
  parsed body has the envelope shape (an object with an \<open>error\<close> object whose \<open>message\<close> is a
  string), \<open>fetchFromWrapper\<close> fails with an \<open>APIError\<close> that carries the HTTP status and
  the envelope's message, also when the status is 2xx; only on a non-2xx status with an
  empty message the text is \<open>HTTP error! status: N\<close> instead.
\<close>

theorem fetchFromWrapper_envelope_failure:
  assumes "fetch (API_BASE_URL @ endpoint) = Responded r"
    and "contentType r = Some ct" and "includes_str ct ''application/json''"
    and "json_body r = Inr data"
    and "data = JObject fs" and "map_of fs ''error'' = Some (JObject efs)"
    and "map_of efs ''message'' = Some (JString m)"
  shows "fetchFromWrapper API_BASE_URL fetch endpoint =
           Inl \<lparr>message = (if ok r \<or> m \<noteq> [] then m else http_error_text (http_status r)),
                statusCode = Some (http_status r)\<rparr>"
proof -
  have shape: "isErrorResponse data"
    using assms(5-7) isErrorResponse_shape by blast
  have msg: "error_message data = m"
    using assms(5-7) by (simp add: error_message_def)
  have ct: "ct \<noteq> []"
    using assms(3) by auto
  show ?thesis
    using assms(1,2,3,4) shape msg ct
    by (simp add: fetchFromWrapper_def Let_def)
qed

theorem fetchFromWrapper_envelope_failure_witness:
  "fetchFromWrapper ''http://localhost:3000/api/v1''
     (sample_fetch 200 ''application/json; charset=utf-8'' (envelope ''boom'')) ''/stations'' =
   Inl \<lparr>message = ''boom'', statusCode = Some 200\<rparr>"
  using fetchFromWrapper_envelope_failure
    [of "sample_fetch 200 ''application/json; charset=utf-8'' (envelope ''boom'')"
        "''http://localhost:3000/api/v1''" "''/stations''"
        "\<lparr>http_status = 200, contentType = Some ''application/json; charset=utf-8'',
          json_body = Inr (envelope ''boom'')\<rparr>"
        "''application/json; charset=utf-8''" "envelope ''boom''"
        "[(''error'', JObject [(''message'', JString ''boom'')])]"
        "[(''message'', JString ''boom'')]" "''boom''"]
  by (simp add: sample_fetch_def envelope_def ok_def)

text \<open>
  The claim as stated fails: a 500 response whose envelope has the empty message is
  reported with the generic text, not with the envelope's message.
\<close>

theorem fetchFromWrapper_empty_message_counterexample:
  "fetchFromWrapper ''http://localhost:3000/api/v1''
     (sample_fetch 500 ''application/json'' (envelope [])) ''/stations'' =
   Inl \<lparr>message = ''HTTP error! status: 500'', statusCode = Some 500\<rparr>
   \<and> isErrorResponse (envelope [])
   \<and> error_message (envelope []) \<noteq> ''HTTP error! status: 500''"
  by (simp add: fetchFromWrapper_def sample_fetch_def envelope_def isErrorResponse_def
      error_message_def ok_def http_error_text_def toString_nat.simps digit_char_def)


section \<open>Properties of sorting and of the station partition\<close>

lemma consistent_localeCompare_en: "consistent localeCompare_en"
  by (auto simp: consistent_def localeCompare_en_def)

lemma consistent_flip: "consistent c \<Longrightarrow> (c a b < 0) = (c b a > 0)"
  unfolding consistent_def by blast

lemma consistent_total:
  assumes "consistent c"
  shows "c a b \<le> 0 \<or> c b a \<le> 0"
proof -
  have "(c b a < 0) = (c a b > 0)" using assms by (rule consistent_flip)
  then show ?thesis by linarith
qed

lemma consistent_trans: "consistent c \<Longrightarrow> c a b \<le> 0 \<Longrightarrow> c b d \<le> 0 \<Longrightarrow> c a d \<le> 0"
  unfolding consistent_def by blast


lemma mset_insert_sorted: "mset (insert_sorted c x xs) = add_mset x (mset xs)"
  by (induction xs) auto

lemma mset_array_sort: "mset (array_sort c xs) = mset xs"
  by (induction xs) (auto simp: mset_insert_sorted)

lemma set_insert_sorted: "set (insert_sorted c x xs) = insert x (set xs)"
  by (induction xs) auto

lemma set_array_sort: "set (array_sort c xs) = set xs"
  by (induction xs) (auto simp: set_insert_sorted)

lemma sorted_insert_sorted:
  assumes "consistent c" "sorted_wrt (\<lambda>a b. c a b \<le> 0) xs"
  shows "sorted_wrt (\<lambda>a b. c a b \<le> 0) (insert_sorted c x xs)"
  using assms(2)
proof (induction xs)
  case Nil
  then show ?case by simp
next
  case (Cons y ys)
  show ?case
  proof (cases "c x y \<le> 0")
    case True
    have "c x z \<le> 0" if "z \<in> set ys" for z
    proof -
      from Cons.prems that have "c y z \<le> 0" by simp
      with True show ?thesis by (rule consistent_trans [OF assms(1)])
    qed
    with True Cons.prems show ?thesis by simp
  next
    case False
    with consistent_total [OF assms(1), of x y] have "c y x \<le> 0" by simp
    moreover from Cons have "sorted_wrt (\<lambda>a b. c a b \<le> 0) (insert_sorted c x ys)" by simp
    ultimately show ?thesis
      using False Cons.prems by (simp add: set_insert_sorted)
  qed
qed

lemma sorted_array_sort:
  "consistent c \<Longrightarrow> sorted_wrt (\<lambda>a b. c a b \<le> 0) (array_sort c xs)"
  by (induction xs) (auto simp: sorted_insert_sorted)











text \<open>The partition of the sample list, computed: the two stations named Astor Pl keep their order.\<close>

lemma partitionStations_example:
  "partitionStations localeCompare_en sample_isFavorite sample_list =
     ([sample_station ''5'' ''Bowling Green'', sample_station ''2'' ''Canal St''],
      [sample_station ''1'' ''Astor Pl'', sample_station ''4'' ''Astor Pl'',
       sample_station ''3'' ''Wall St''])"
  by (simp add: partitionStations_def push_station_def sample_list_def by_name_def
      localeCompare_en_def collation_key_def primary_weight_def case_weight_def lower_char_def
      sample_station_def sample_isFavorite_def)



section \<open>Properties of the departure sections\<close>

lemma borough_label_absent: "destinationBorough dep = None \<Longrightarrow> borough_label dep = ''Outbound''"
  by (simp add: borough_label_def)

lemma borough_label_present:
  "destinationBorough dep = Some b \<Longrightarrow> b \<noteq> [] \<Longrightarrow> borough_label dep = b"
  by (simp add: borough_label_def)

lemma encounter_order_snoc:
  "encounter_order (ls @ [l]) = (if l \<in> set ls then encounter_order ls else encounter_order ls @ [l])"
  by (simp add: encounter_order_def)

lemma set_encounter_order: "set (encounter_order ls) = set ls"
  by (simp add: encounter_order_def)

lemma distinct_encounter_order: "distinct (encounter_order ls)"
  by (simp add: encounter_order_def)

lemma keys_push_group:
  "map fst (push_group acc dep) =
     (if borough_label dep \<in> set (map fst acc) then map fst acc
      else map fst acc @ [borough_label dep])"
proof -
  have keep: "map fst (map (\<lambda>(k, ds). if k = b then (k, ds @ [dep]) else (k, ds)) xs) = map fst xs"
    for b and xs :: "(string \<times> ('a, 'b) Departure_scheme list) list"
    by (induction xs) auto
  show ?thesis
    by (auto simp: push_group_def Let_def keep map_of_eq_None_iff)
qed

lemma keys_foldl_push_group:
  "map fst (foldl push_group [] deps) = encounter_order (map borough_label deps)"
proof (induction deps rule: rev_induct)
  case Nil
  then show ?case by (simp add: encounter_order_def)
next
  case (snoc d ds)
  then show ?case
    by (simp add: keys_push_group encounter_order_snoc set_encounter_order)
qed

lemma keys_plain_groups:
  "map fst (plain_groups deps) = encounter_order (map borough_label deps)"
  by (simp add: plain_groups_def keys_foldl_push_group)

lemma push_group_nonempty:
  assumes "\<forall>g \<in> set acc. snd g \<noteq> []"
  shows "\<forall>g \<in> set (push_group acc dep). snd g \<noteq> []"
  using assms by (auto simp: push_group_def Let_def split: if_splits)

lemma foldl_push_group_nonempty:
  "\<forall>g \<in> set acc. snd g \<noteq> [] \<Longrightarrow> \<forall>g \<in> set (foldl push_group acc deps). snd g \<noteq> []"
proof (induction deps arbitrary: acc)
  case Nil
  then show ?case by simp
next
  case (Cons d ds)
  from Cons.prems have "\<forall>g \<in> set (push_group acc d). snd g \<noteq> []"
    by (rule push_group_nonempty)
  then show ?case using Cons.IH by simp
qed

lemma plain_groups_nonempty: "g \<in> set (plain_groups deps) \<Longrightarrow> snd g \<noteq> []"
  using foldl_push_group_nonempty [of "[]" deps] by (simp add: plain_groups_def)

lemma map_filter_render_keys:
  "\<forall>g \<in> set gs. snd g \<noteq> [] \<Longrightarrow> map section_key (List.map_filter render_section gs) = map fst gs"
  by (induction gs) (auto simp: render_section_def split: prod.splits)

lemma insert_outbound_first:
  assumes "sys = LIRR \<or> sys = MNR"
    and "\<forall>a \<in> set as. fst a = ''Outbound''" and "\<forall>b \<in> set bs. fst b \<noteq> ''Outbound''"
  shows "insert_sorted (section_compare lc sys) x (as @ bs) =
           (if fst x = ''Outbound'' then x # as @ bs else as @ x # bs)"
  using assms(2)
proof (induction as)
  case Nil
  show ?case
  proof (cases bs)
    case Nil
    then show ?thesis by simp
  next
    case (Cons b bs')
    with assms(1,3) show ?thesis
      by (auto simp: section_compare_def)
  qed
next
  case (Cons a as)
  with assms(1) show ?case
    by (auto simp: section_compare_def)
qed

lemma array_sort_outbound_first:
  assumes "sys = LIRR \<or> sys = MNR"
  shows "array_sort (section_compare lc sys) gs =
           filter (\<lambda>g. fst g = ''Outbound'') gs @ filter (\<lambda>g. fst g \<noteq> ''Outbound'') gs"
proof (induction gs)
  case Nil
  then show ?case by simp
next
  case (Cons g gs)
  have "insert_sorted (section_compare lc sys) g
          (filter (\<lambda>g. fst g = ''Outbound'') gs @ filter (\<lambda>g. fst g \<noteq> ''Outbound'') gs) =
        (if fst g = ''Outbound''
         then g # filter (\<lambda>g. fst g = ''Outbound'') gs @ filter (\<lambda>g. fst g \<noteq> ''Outbound'') gs
         else filter (\<lambda>g. fst g = ''Outbound'') gs @ g # filter (\<lambda>g. fst g \<noteq> ''Outbound'') gs)"
    using assms by (intro insert_outbound_first) auto
  with Cons.IH show ?case by simp
qed

lemma filter_eq_distinct:
  "distinct ks \<Longrightarrow> filter (\<lambda>k. k = a) ks = (if a \<in> set ks then [a] else [])"
  by (induction ks) auto

lemma section_compare_subway: "section_compare lc SUBWAY a b = lc (fst a) (fst b)"
  by (simp add: section_compare_def)

lemma consistent_section_compare:
  assumes "consistent lc"
  shows "consistent (section_compare lc SUBWAY)"
  unfolding consistent_def section_compare_subway
proof (intro conjI allI impI)
  fix a b :: "string \<times> 'a"
  show "(lc (fst a) (fst b) < 0) = (0 < lc (fst b) (fst a))"
    using assms by (rule consistent_flip)
next
  fix a b c :: "string \<times> 'a"
  assume "lc (fst a) (fst b) \<le> 0 \<and> lc (fst b) (fst c) \<le> 0"
  then show "lc (fst a) (fst c) \<le> 0"
    using consistent_trans [OF assms] by blast
qed

lemma push_group_member:
  assumes "(k, xs) \<in> set (push_group acc d)"
  shows "(k \<noteq> borough_label d \<and> (k, xs) \<in> set acc)
       \<or> (k = borough_label d \<and> (\<exists>ys. (k, ys) \<in> set acc \<and> xs = ys @ [d]))
       \<or> (k = borough_label d \<and> k \<notin> fst ` set acc \<and> xs = [d])"
  using assms
  by (auto simp: push_group_def Let_def map_of_eq_None_iff split: if_splits)

lemma plain_groups_snoc: "plain_groups (ds @ [d]) = push_group (plain_groups ds) d"
  by (simp add: plain_groups_def)

lemma group_contents:
  "(k, xs) \<in> set (plain_groups deps) \<Longrightarrow> xs = filter (\<lambda>d. borough_label d = k) deps"
proof (induction deps arbitrary: k xs rule: rev_induct)
  case Nil
  then show ?case by (simp add: plain_groups_def)
next
  case (snoc d ds)
  from snoc.prems have "(k, xs) \<in> set (push_group (plain_groups ds) d)"
    by (simp add: plain_groups_snoc)
  then consider
      (other) "k \<noteq> borough_label d" "(k, xs) \<in> set (plain_groups ds)"
    | (push) ys where "k = borough_label d" "(k, ys) \<in> set (plain_groups ds)" "xs = ys @ [d]"
    | (new) "k = borough_label d" "k \<notin> fst ` set (plain_groups ds)" "xs = [d]"
    using push_group_member by blast
  then show ?case
  proof cases
    case other
    with snoc.IH show ?thesis by simp
  next
    case push
    with snoc.IH show ?thesis by simp
  next
    case new
    have "set (map fst (plain_groups ds)) = set (map borough_label ds)"
      by (simp only: keys_plain_groups set_encounter_order)
    with new(2) have "k \<notin> set (map borough_label ds)" by simp
    then have "filter (\<lambda>d. borough_label d = k) ds = []"
      by (auto simp: filter_empty_conv)
    with new show ?thesis by simp
  qed
qed

lemma in_map_filter:
  "y \<in> set (List.map_filter f xs) \<Longrightarrow> \<exists>x \<in> set xs. f x = Some y"
  by (induction xs) (auto split: option.splits)

lemma render_section_Some:
  "render_section g = Some sec \<Longrightarrow> section_key sec = fst g \<and> section_items sec = snd g"
  by (auto simp: render_section_def split: prod.splits if_splits)


lemma group_step_plain:
  assumes "borough_label dep \<notin> set Object_prototype_members"
  shows "group_step acc dep = Inr (push_group acc dep)"
proof (cases "map_of acc (borough_label dep)")
  case None
  with assms show ?thesis
    by (simp add: group_step_def push_group_def get_property_def Let_def map_add_def)
next
  case (Some ds)
  then show ?thesis
    by (simp add: group_step_def push_group_def get_property_def Let_def)
qed

lemma group_step_throws:
  assumes "borough_label dep \<in> set Object_prototype_members"
    and "map_of acc (borough_label dep) = None"
  shows "group_step acc dep = Inl TypeError"
  using assms by (simp add: group_step_def get_property_def Let_def)

lemma reduce_groups_plain:
  "\<forall>d \<in> set deps. borough_label d \<notin> set Object_prototype_members \<Longrightarrow>
     reduce_groups acc deps = Inr (foldl push_group acc deps)"
  by (induction deps arbitrary: acc) (simp_all add: group_step_plain)

lemma groupByBorough_plain:
  "\<forall>d \<in> set deps. borough_label d \<notin> set Object_prototype_members \<Longrightarrow>
     groupByBorough deps = Inr (plain_groups deps)"
  by (simp add: groupByBorough_def plain_groups_def reduce_groups_plain)

lemma mset_Object_entries: "mset (Object_entries obj) = mset obj"
  by (simp add: Object_entries_def)

lemma set_Object_entries: "set (Object_entries obj) = set obj"
  by (auto simp: Object_entries_def)

lemma Object_entries_plain:
  assumes "\<forall>e \<in> set obj. \<not> is_array_index (fst e)"
  shows "Object_entries obj = obj"
proof -
  from assms have "filter (\<lambda>entry. is_array_index (fst entry)) obj = []"
    by (simp add: filter_empty_conv)
  moreover from assms have "filter (\<lambda>entry. \<not> is_array_index (fst entry)) obj = obj"
    by (simp add: filter_id_conv)
  ultimately show ?thesis by (simp add: Object_entries_def)
qed

lemma departure_sections_plain:
  assumes "\<forall>d \<in> set deps. borough_label d \<notin> set Object_prototype_members"
  shows "departure_sections lc sys deps =
           Inr (List.map_filter render_section
                  (array_sort (section_compare lc sys) (Object_entries (plain_groups deps))))"
  using assms by (simp add: departure_sections_def groupByBorough_plain)

lemma section_keys:
  "map section_key (List.map_filter render_section
       (array_sort (section_compare lc sys) (Object_entries (plain_groups deps)))) =
     map fst (array_sort (section_compare lc sys) (Object_entries (plain_groups deps)))"
  by (rule map_filter_render_keys)
    (auto simp: set_array_sort set_Object_entries dest: plain_groups_nonempty)

lemma section_items_grouped:
  assumes "sec \<in> set (List.map_filter render_section
             (array_sort (section_compare lc sys) (Object_entries (plain_groups deps))))"
  shows "section_items sec = filter (\<lambda>d. borough_label d = section_key sec) deps"
proof -
  from assms obtain g where g: "g \<in> set (plain_groups deps)" "render_section g = Some sec"
    by (auto simp: set_array_sort set_Object_entries dest: in_map_filter)
  then have "section_key sec = fst g" "section_items sec = snd g"
    by (simp_all add: render_section_Some)
  moreover from g(1) have "snd g = filter (\<lambda>d. borough_label d = fst g) deps"
    using group_contents [of "fst g" "snd g" deps] by simp
  ultimately show ?thesis by simp
qed

lemma entries_keys_mset:
  "mset (map fst (array_sort (section_compare lc sys) (Object_entries (plain_groups deps)))) =
     mset (encounter_order (map borough_label deps))"
proof -
  have "mset (map fst (array_sort (section_compare lc sys) (Object_entries (plain_groups deps)))) =
        mset (map fst (plain_groups deps))"
    by (simp add: mset_array_sort mset_Object_entries)
  then show ?thesis by (simp only: keys_plain_groups)
qed

lemma plain_labels:
  assumes "\<forall>d \<in> set deps. \<not> is_array_index (borough_label d)"
  shows "Object_entries (plain_groups deps) = plain_groups deps"
proof (rule Object_entries_plain, rule ballI)
  fix e
  assume "e \<in> set (plain_groups deps)"
  then have "fst e \<in> set (map fst (plain_groups deps))" by simp
  then have "fst e \<in> set (map borough_label deps)"
    by (simp only: keys_plain_groups set_encounter_order)
  with assms show "\<not> is_array_index (fst e)" by auto
qed

text \<open>
  Claim C5, as amended. The departures are grouped into sections by \<open>destinationBorough\<close>,
  an absent borough giving the group \<open>Outbound\<close>. Provided no group label is the name of a
  member of \<open>Object.prototype\<close> (otherwise the grouping throws): on a SUBWAY station all
  sections, \<open>Outbound\<close> included, are in ascending order of their labels under
  \<open>localeCompare\<close> (whatever consistent comparator it is), each label once; on a LIRR or
  MNR station, provided also that no label is an array index (a canonical decimal string
  such as "10"), the \<open>Outbound\<close> section comes first and the other sections follow in the
  order in which their labels are first encountered. Each section holds the departures of
  its label, in their order.
\<close>

theorem section_order:
  assumes "\<forall>d \<in> set deps. borough_label d \<notin> set Object_prototype_members"
  shows "\<exists>sections. departure_sections localeCompare sys deps = Inr sections
     \<and> ((sys = LIRR \<or> sys = MNR) \<and> (\<forall>d \<in> set deps. \<not> is_array_index (borough_label d)) \<longrightarrow>
          map section_key sections =
            (if ''Outbound'' \<in> set (map borough_label deps) then [''Outbound''] else []) @
            filter (\<lambda>k. k \<noteq> ''Outbound'') (encounter_order (map borough_label deps)))
     \<and> (sys = SUBWAY \<and> consistent localeCompare \<longrightarrow>
          sorted_wrt (\<lambda>a b. localeCompare a b \<le> 0) (map section_key sections)
        \<and> distinct (map section_key sections)
        \<and> set (map section_key sections) = set (map borough_label deps))
     \<and> (\<forall>sec \<in> set sections.
          section_items sec = filter (\<lambda>d. borough_label d = section_key sec) deps)"
proof -
  let ?keys = "encounter_order (map borough_label deps)"
  let ?entries = "Object_entries (plain_groups deps)"
  let ?sections = "List.map_filter render_section (array_sort (section_compare localeCompare sys) ?entries)"
  have result: "departure_sections localeCompare sys deps = Inr ?sections"
    using assms by (rule departure_sections_plain)
  have rail: "map section_key ?sections =
        (if ''Outbound'' \<in> set (map borough_label deps) then [''Outbound''] else []) @
        filter (\<lambda>k. k \<noteq> ''Outbound'') ?keys"
    if sys: "sys = LIRR \<or> sys = MNR"
      and plain: "\<forall>d \<in> set deps. \<not> is_array_index (borough_label d)"
  proof -
    have entries: "?entries = plain_groups deps"
      using plain by (rule plain_labels)
    have "map section_key ?sections =
            map fst (array_sort (section_compare localeCompare sys) ?entries)"
      by (rule section_keys)
    also have "\<dots> =
            map fst (filter (\<lambda>g. fst g = ''Outbound'') (plain_groups deps) @
                     filter (\<lambda>g. fst g \<noteq> ''Outbound'') (plain_groups deps))"
      using sys by (simp only: entries array_sort_outbound_first)
    also have "\<dots> = filter (\<lambda>k. k = ''Outbound'') ?keys @ filter (\<lambda>k. k \<noteq> ''Outbound'') ?keys"
      unfolding keys_plain_groups [symmetric] by (simp add: filter_map comp_def)
    also have "filter (\<lambda>k. k = ''Outbound'') ?keys =
                 (if ''Outbound'' \<in> set (map borough_label deps) then [''Outbound''] else [])"
      using filter_eq_distinct [OF distinct_encounter_order, of "''Outbound''" "map borough_label deps"]
      by (simp only: set_encounter_order)
    finally show ?thesis .
  qed
  have subway: "sorted_wrt (\<lambda>a b. localeCompare a b \<le> 0) (map section_key ?sections)
        \<and> distinct (map section_key ?sections)
        \<and> set (map section_key ?sections) = set (map borough_label deps)"
    if sys: "sys = SUBWAY" and c: "consistent localeCompare"
  proof -
    from c have "consistent (section_compare localeCompare SUBWAY)"
      by (rule consistent_section_compare)
    then have "sorted_wrt (\<lambda>a b. section_compare localeCompare SUBWAY a b \<le> 0)
            (array_sort (section_compare localeCompare SUBWAY) ?entries)"
      by (rule sorted_array_sort)
    then have "sorted_wrt (\<lambda>a b. localeCompare a b \<le> 0)
            (map fst (array_sort (section_compare localeCompare SUBWAY) ?entries))"
      by (simp add: section_compare_subway sorted_wrt_map)
    with sys have sorted: "sorted_wrt (\<lambda>a b. localeCompare a b \<le> 0) (map section_key ?sections)"
      by (simp add: section_keys)
    have same: "mset (map section_key ?sections) = mset ?keys"
      by (simp only: section_keys entries_keys_mset)
    from mset_eq_imp_distinct_iff [OF same]
    have distinct: "distinct (map section_key ?sections)"
      by (simp only: distinct_encounter_order)
    from same have "set (map section_key ?sections) = set ?keys"
      by (rule mset_eq_setD)
    then have "set (map section_key ?sections) = set (map borough_label deps)"
      by (simp only: set_encounter_order)
    with sorted distinct show ?thesis by simp
  qed
  have items: "\<forall>sec \<in> set ?sections.
          section_items sec = filter (\<lambda>d. borough_label d = section_key sec) deps"
    by (auto dest: section_items_grouped)
  from result rail subway items show ?thesis by blast
qed

theorem section_order_witness:
  "section_labels localeCompare_en LIRR
       [sample_departure None None (Some ''Queens''), sample_departure None None None] =
     Inr [''Outbound'', ''Queens'']
   \<and> (\<exists>sections. departure_sections localeCompare_en SUBWAY
          [sample_departure None None (Some ''Queens''), sample_departure None None (Some ''Bronx'')] =
            Inr sections
        \<and> sorted_wrt (\<lambda>a b. localeCompare_en a b \<le> 0) (map section_key sections)
        \<and> set (map section_key sections) = {''Queens'', ''Bronx''})"
proof -
  let ?rail = "[sample_departure None None (Some ''Queens''), sample_departure None None None]"
  let ?subway = "[sample_departure None None (Some ''Queens''),
                  sample_departure None None (Some ''Bronx'')]"
  have labels: "map borough_label ?rail = [''Queens'', ''Outbound'']"
      "map borough_label ?subway = [''Queens'', ''Bronx'']"
    by (simp_all add: borough_label_def sample_departure_def)
  have ordinary: "''Queens'' \<notin> set Object_prototype_members"
      "''Outbound'' \<notin> set Object_prototype_members" "''Bronx'' \<notin> set Object_prototype_members"
      "\<not> is_array_index ''Queens''" "\<not> is_array_index ''Outbound''"
    by (simp_all add: Object_prototype_members_def is_array_index_def parse_nat_def
        digit_value_def toString_nat.simps digit_char_def)
  have safe_rail: "\<forall>d \<in> set ?rail. borough_label d \<notin> set Object_prototype_members"
    and plain_rail: "\<forall>d \<in> set ?rail. \<not> is_array_index (borough_label d)"
    and safe_subway: "\<forall>d \<in> set ?subway. borough_label d \<notin> set Object_prototype_members"
    using ordinary by (simp_all add: borough_label_def sample_departure_def)
  from section_order [OF safe_rail, of localeCompare_en LIRR] plain_rail
  obtain rail_sections where
      "departure_sections localeCompare_en LIRR ?rail = Inr rail_sections"
      "map section_key rail_sections =
         (if ''Outbound'' \<in> set (map borough_label ?rail) then [''Outbound''] else []) @
         filter (\<lambda>k. k \<noteq> ''Outbound'') (encounter_order (map borough_label ?rail))"
    by blast
  then have first: "section_labels localeCompare_en LIRR ?rail = Inr [''Outbound'', ''Queens'']"
    unfolding labels by (simp add: section_labels_def encounter_order_def)
  from section_order [OF safe_subway, of localeCompare_en SUBWAY] consistent_localeCompare_en
  obtain subway_sections where
      "departure_sections localeCompare_en SUBWAY ?subway = Inr subway_sections"
      "sorted_wrt (\<lambda>a b. localeCompare_en a b \<le> 0) (map section_key subway_sections)"
      "set (map section_key subway_sections) = set (map borough_label ?subway)"
    by blast
  then have "\<exists>sections. departure_sections localeCompare_en SUBWAY ?subway = Inr sections
        \<and> sorted_wrt (\<lambda>a b. localeCompare_en a b \<le> 0) (map section_key sections)
        \<and> set (map section_key sections) = {''Queens'', ''Bronx''}"
    unfolding labels by auto
  with first show ?thesis by blast
qed

text \<open>The two examples of the specification, computed.\<close>

lemma section_order_examples:
  "section_labels localeCompare_en LIRR
       [sample_departure None None (Some ''Queens''), sample_departure None None None] =
     Inr [''Outbound'', ''Queens'']
   \<and> section_labels localeCompare_en SUBWAY
       [sample_departure None None (Some ''Queens''), sample_departure None None (Some ''Bronx'')] =
     Inr [''Bronx'', ''Queens'']"
  by (simp add: section_labels_def departure_sections_def groupByBorough_def group_step_def
      get_property_def Object_prototype_members_def Object_entries_def is_array_index_def
      parse_nat_def digit_value_def toString_nat.simps digit_char_def borough_label_def
      sample_departure_def section_compare_def render_section_def localeCompare_en_def
      collation_key_def primary_weight_def case_weight_def lower_char_def Let_def)

text \<open>
  The claim as stated fails. On a LIRR station whose departures carry the labels "10"
  and then "2", the sections come out as "2", "10": the plain object lists array
  indices in numeric order, not in the order of encounter. And a departure labelled
  "constructor" makes the grouping throw, so no sections are shown at all.
\<close>

theorem section_order_counterexample:
  "section_labels localeCompare_en LIRR
       [sample_departure None None (Some ''10''), sample_departure None None (Some ''2'')] =
     Inr [''2'', ''10'']
   \<and> encounter_order (map borough_label
       [sample_departure None None (Some ''10''), sample_departure None None (Some ''2'')]) =
     [''10'', ''2'']
   \<and> section_labels localeCompare_en LIRR [sample_departure None None (Some ''constructor'')] =
     Inl TypeError"
  by (simp add: section_labels_def departure_sections_def groupByBorough_def group_step_def
      get_property_def Object_prototype_members_def Object_entries_def is_array_index_def
      parse_nat_def digit_value_def toString_nat.simps digit_char_def borough_label_def
      sample_departure_def section_compare_def render_section_def encounter_order_def Let_def)


section \<open>Properties of the station cache\<close>

lemma loadStations_fresh:
  assumes "cachedStationList (localStorage st) = Some A"
    and "cachedStationListTimestamp (localStorage st) = Some t0"
    and "t0 \<noteq> 0" and "t - t0 < STATION_LIST_CACHE_TTL"
  shows "loadStations wrapper t t' q f st = st\<lparr>isLoading := True, allStations := A, isLoading := False\<rparr>"
  using assms by (simp add: loadStations_def Let_def)

lemma loadStations_fetch:
  assumes "cachedStationList (localStorage st) = None
         \<or> (\<exists>t0. cachedStationListTimestamp (localStorage st) = Some t0 \<and> (t0 = 0 \<or> \<not> t - t0 < STATION_LIST_CACHE_TTL))
         \<or> cachedStationListTimestamp (localStorage st) = None"
  shows "loadStations wrapper t t' q f st =
     (case fetchStations wrapper t (Some q) (filterValueToApiParam f) False of
               (params, Inr stations) \<Rightarrow>
                 st\<lparr> isLoading := True, requests := requests st @ [params],
                     localStorage := \<lparr>cachedStationList = Some stations,
                                       cachedStationListTimestamp = Some t'\<rparr>,
                     allStations := stations,
                     isLoading := False \<rparr>
             | (params, Inl err) \<Rightarrow>
                 st\<lparr> isLoading := True, requests := requests st @ [params],
                     toasts := toasts st @
                       [\<lparr>style = Failure, title = ''Error Loading Stations'',
                         toast_message = Some (message err)\<rparr>],
                     allStations := [],
                     isLoading := False \<rparr>)"
  using assms by (auto simp: loadStations_def Let_def split: option.splits prod.splits sum.splits)

lemma handleRefresh_failure:
  assumes "snd (fetchStations wrapper now (Some (searchText st)) (filterValueToApiParam (selectedSystem st)) True) = Inl err"
  shows "handleRefresh wrapper now now' st =
    st\<lparr> toasts := toasts st @
            [\<lparr>style = Animated, title = ''Refreshing station list...'', toast_message = None\<rparr>,
             \<lparr>style = Failure, title = ''Failed to refresh station list'',
                    toast_message = Some (message err)\<rparr>],
         localStorage := \<lparr>cachedStationList = None, cachedStationListTimestamp = None\<rparr>,
         requests := requests st @ [fst (fetchStations wrapper now (Some (searchText st)) (filterValueToApiParam (selectedSystem st)) True)],
         isLoading := False\<rparr>"
  using assms by (cases "fetchStations wrapper now (Some (searchText st)) (filterValueToApiParam (selectedSystem st)) True")
    (simp add: handleRefresh_def Let_def)

text \<open>
  Claim C1, as amended. When a forced refresh is requested and the underlying fetch
  fails, the refresh surfaces the error (a failure toast after the progress toast) and
  leaves the list on screen as it was, but the persisted snapshot and its timestamp have
  been removed before the fetch: the cache is empty afterwards, so a subsequent
  non-forced read is not answered from a cache but sends a request and shows what that
  request returns (the empty list if it fails too).
\<close>

theorem handleRefresh_failure_clears_cache:
  assumes "snd (fetchStations wrapper now (Some (searchText st))
                  (filterValueToApiParam (selectedSystem st)) True) = Inl err"
  shows "localStorage (handleRefresh wrapper now now' st) =
           \<lparr>cachedStationList = None, cachedStationListTimestamp = None\<rparr>
       \<and> allStations (handleRefresh wrapper now now' st) = allStations st
       \<and> toasts (handleRefresh wrapper now now' st) = toasts st @
            [\<lparr>style = Animated, title = ''Refreshing station list...'', toast_message = None\<rparr>,
             \<lparr>style = Failure, title = ''Failed to refresh station list'',
              toast_message = Some (message err)\<rparr>]
       \<and> requests (loadStations wrapper2 t t' q f (handleRefresh wrapper now now' st)) =
           requests (handleRefresh wrapper now now' st) @
             [fst (fetchStations wrapper2 t (Some q) (filterValueToApiParam f) False)]
       \<and> allStations (loadStations wrapper2 t t' q f (handleRefresh wrapper now now' st)) =
           (case snd (fetchStations wrapper2 t (Some q) (filterValueToApiParam f) False) of
              Inr fresh \<Rightarrow> fresh
            | Inl e \<Rightarrow> [])"
proof -
  let ?st' = "handleRefresh wrapper now now' st"
  have after: "?st' =
    st\<lparr> toasts := toasts st @
            [\<lparr>style = Animated, title = ''Refreshing station list...'', toast_message = None\<rparr>,
             \<lparr>style = Failure, title = ''Failed to refresh station list'',
                    toast_message = Some (message err)\<rparr>],
         localStorage := \<lparr>cachedStationList = None, cachedStationListTimestamp = None\<rparr>,
         requests := requests st @ [fst (fetchStations wrapper now (Some (searchText st)) (filterValueToApiParam (selectedSystem st)) True)],
         isLoading := False\<rparr>"
    using assms by (rule handleRefresh_failure)
  have empty: "cachedStationList (localStorage ?st') = None"
    by (simp add: after)
  have read: "loadStations wrapper2 t t' q f ?st' =
     (case fetchStations wrapper2 t (Some q) (filterValueToApiParam f) False of
               (params, Inr stations) \<Rightarrow>
                 ?st'\<lparr> isLoading := True, requests := requests ?st' @ [params],
                     localStorage := \<lparr>cachedStationList = Some stations,
                                       cachedStationListTimestamp = Some t'\<rparr>,
                     allStations := stations,
                     isLoading := False \<rparr>
             | (params, Inl err) \<Rightarrow>
                 ?st'\<lparr> isLoading := True, requests := requests ?st' @ [params],
                     toasts := toasts ?st' @
                       [\<lparr>style = Failure, title = ''Error Loading Stations'',
                         toast_message = Some (message err)\<rparr>],
                     allStations := [],
                     isLoading := False \<rparr>)"
    using empty by (intro loadStations_fetch) simp
  have r1: "requests (loadStations wrapper2 t t' q f ?st') =
           requests ?st' @ [fst (fetchStations wrapper2 t (Some q) (filterValueToApiParam f) False)]"
    unfolding read by (simp split: prod.splits sum.splits)
  have r2: "allStations (loadStations wrapper2 t t' q f ?st') =
           (case snd (fetchStations wrapper2 t (Some q) (filterValueToApiParam f) False) of
              Inr fresh \<Rightarrow> fresh
            | Inl e \<Rightarrow> [])"
    unfolding read by (simp split: prod.splits sum.splits)
  have s1: "localStorage ?st' = \<lparr>cachedStationList = None, cachedStationListTimestamp = None\<rparr>"
    and s2: "allStations ?st' = allStations st"
    and s3: "toasts ?st' = toasts st @
            [\<lparr>style = Animated, title = ''Refreshing station list...'', toast_message = None\<rparr>,
             \<lparr>style = Failure, title = ''Failed to refresh station list'',
              toast_message = Some (message err)\<rparr>]"
    by (simp_all add: after)
  from s1 s2 s3 r1 r2 show ?thesis by (intro conjI)
qed

theorem handleRefresh_failure_clears_cache_witness:
  "localStorage (handleRefresh failing_wrapper 1793707201000 1793707202000
      (sample_state \<lparr>cachedStationList = Some [sample_station ''2'' ''Canal St''],
                     cachedStationListTimestamp = Some 1793707200000\<rparr>)) =
     \<lparr>cachedStationList = None, cachedStationListTimestamp = None\<rparr>
   \<and> toasts (handleRefresh failing_wrapper 1793707201000 1793707202000
      (sample_state \<lparr>cachedStationList = Some [sample_station ''2'' ''Canal St''],
                     cachedStationListTimestamp = Some 1793707200000\<rparr>)) =
     [\<lparr>style = Animated, title = ''Refreshing station list...'', toast_message = None\<rparr>,
      \<lparr>style = Failure, title = ''Failed to refresh station list'',
       toast_message = Some ''fetch failed''\<rparr>]
   \<and> allStations (loadStations sample_server 1793707203000 1793707204000 [] AllSystems
        (handleRefresh failing_wrapper 1793707201000 1793707202000
          (sample_state \<lparr>cachedStationList = Some [sample_station ''2'' ''Canal St''],
                         cachedStationListTimestamp = Some 1793707200000\<rparr>))) = sample_list"
  using handleRefresh_failure_clears_cache
    [where wrapper = failing_wrapper and now = 1793707201000 and now' = 1793707202000
       and st = "sample_state \<lparr>cachedStationList = Some [sample_station ''2'' ''Canal St''],
                               cachedStationListTimestamp = Some 1793707200000\<rparr>"
       and err = "\<lparr>message = ''fetch failed'', statusCode = None\<rparr>"
       and ?wrapper2.0 = sample_server and t = 1793707203000 and t' = 1793707204000
       and q = "[]" and f = AllSystems]
  by (simp add: fetchStations_def failing_wrapper_def sample_state_def sample_server_def)

text \<open>
  The claim as stated fails: after a forced refresh whose fetch fails, both items are
  gone, and a non-forced read (here with the network still failing) shows the empty list,
  where without the refresh it would have shown the cached snapshot.
\<close>

theorem handleRefresh_failure_counterexample:
  "localStorage (handleRefresh failing_wrapper 1793707201000 1793707202000
      (sample_state \<lparr>cachedStationList = Some sample_list,
                     cachedStationListTimestamp = Some 1793707200000\<rparr>)) =
     \<lparr>cachedStationList = None, cachedStationListTimestamp = None\<rparr>
   \<and> allStations (loadStations failing_wrapper 1793707203000 1793707204000 [] AllSystems
        (handleRefresh failing_wrapper 1793707201000 1793707202000
          (sample_state \<lparr>cachedStationList = Some sample_list,
                         cachedStationListTimestamp = Some 1793707200000\<rparr>))) = []
   \<and> allStations (loadStations failing_wrapper 1793707203000 1793707204000 [] AllSystems
          (sample_state \<lparr>cachedStationList = Some sample_list,
                         cachedStationListTimestamp = Some 1793707200000\<rparr>)) = sample_list
   \<and> sample_list \<noteq> []"
  by (simp add: handleRefresh_def loadStations_def fetchStations_def failing_wrapper_def
      sample_state_def Let_def STATION_LIST_CACHE_TTL_def sample_list_def)


text \<open>
  The cache has one snapshot and one timestamp under constant keys, and \<open>loadStations\<close>
  consults them before it looks at the filter. Hence the defect below, in general:
  whatever the filters and search texts of two reads, the list fetched by the first is
  served to the second while it is fresh, without a request.
\<close>

lemma cache_entry_shared_by_filters:
  assumes "cachedStationList (localStorage st) = None"
    and "snd (fetchStations wrapper t0 (Some q1) (filterValueToApiParam f1) False) = Inr A"
    and "t1 \<noteq> 0" and "t2 - t1 < STATION_LIST_CACHE_TTL"
  shows "localStorage (loadStations wrapper t0 t1 q1 f1 st) =
           \<lparr>cachedStationList = Some A, cachedStationListTimestamp = Some t1\<rparr>
       \<and> allStations (loadStations wrapper2 t2 t3 q2 f2 (loadStations wrapper t0 t1 q1 f1 st)) = A
       \<and> requests (loadStations wrapper2 t2 t3 q2 f2 (loadStations wrapper t0 t1 q1 f1 st)) =
           requests (loadStations wrapper t0 t1 q1 f1 st)
       \<and> localStorage (loadStations wrapper2 t2 t3 q2 f2 (loadStations wrapper t0 t1 q1 f1 st)) =
           \<lparr>cachedStationList = Some A, cachedStationListTimestamp = Some t1\<rparr>"
proof -
  let ?st1 = "loadStations wrapper t0 t1 q1 f1 st"
  obtain params where call: "fetchStations wrapper t0 (Some q1) (filterValueToApiParam f1) False = (params, Inr A)"
    using assms(2) by (cases "fetchStations wrapper t0 (Some q1) (filterValueToApiParam f1) False") simp
  have first: "?st1 = st\<lparr> isLoading := True, requests := requests st @ [params],
                     localStorage := \<lparr>cachedStationList = Some A,
                                       cachedStationListTimestamp = Some t1\<rparr>,
                     allStations := A,
                     isLoading := False \<rparr>"
    using assms(1) call by (simp add: loadStations_fetch)
  then have stored: "localStorage ?st1 = \<lparr>cachedStationList = Some A, cachedStationListTimestamp = Some t1\<rparr>"
    by simp
  have second: "loadStations wrapper2 t2 t3 q2 f2 ?st1 =
                  ?st1\<lparr>isLoading := True, allStations := A, isLoading := False\<rparr>"
    using assms(3,4) by (intro loadStations_fresh) (simp_all add: stored)
  have "allStations (loadStations wrapper2 t2 t3 q2 f2 ?st1) = A"
    and "requests (loadStations wrapper2 t2 t3 q2 f2 ?st1) = requests ?st1"
    and "localStorage (loadStations wrapper2 t2 t3 q2 f2 ?st1) =
           \<lparr>cachedStationList = Some A, cachedStationListTimestamp = Some t1\<rparr>"
    unfolding second by (simp_all add: stored)
  with stored show ?thesis by (intro conjI)
qed

text \<open>
  Claim C2. The cache entry is to be keyed by the active system filter: a snapshot stored
  under one filter must not be served to a read under another. The code fails this. With
  an empty cache, the list fetched under the filter All is served to a read under the
  filter SUBWAY one second later, although the server answers SUBWAY with a different
  list; the only request sent is the first one.
\<close>

theorem loadStations_serves_other_filter:
  "allStations (loadStations sample_server 1793707201000 1793707201000 [] (System SUBWAY)
      (loadStations sample_server 1793707200000 1793707200000 [] AllSystems
         (sample_state \<lparr>cachedStationList = None, cachedStationListTimestamp = None\<rparr>))) =
     sample_list
   \<and> requests (loadStations sample_server 1793707201000 1793707201000 [] (System SUBWAY)
      (loadStations sample_server 1793707200000 1793707200000 [] AllSystems
         (sample_state \<lparr>cachedStationList = None, cachedStationListTimestamp = None\<rparr>))) = [[]]
   \<and> snd (fetchStations sample_server 1793707201000 (Some []) (filterValueToApiParam (System SUBWAY)) False) =
       Inr [sample_station ''2'' ''Canal St'']
   \<and> sample_list \<noteq> [sample_station ''2'' ''Canal St'']"
  by (simp add: loadStations_def fetchStations_def sample_server_def
      sample_state_def Let_def STATION_LIST_CACHE_TTL_def sample_list_def)

text \<open>
  Claim C3, as amended. For every snapshot cached at a time \<open>t0\<close> other than 0 (the code
  reads a timestamp of 0 as "no timestamp"), with the TTL of 7 days: a read at a time
  before \<open>t0 + TTL\<close> is answered from the cache without a request and leaves the cache as it
  is; a read at \<open>t0 + TTL\<close> or later sends exactly one request, and when that request
  succeeds the snapshot and the timestamp are overwritten, while when it fails they stay
  as they were, the list on screen is emptied and the error is shown.
\<close>

theorem loadStations_ttl:
  assumes "localStorage st = \<lparr>cachedStationList = Some A, cachedStationListTimestamp = Some t0\<rparr>"
    and "t0 \<noteq> 0"
  shows "(t < t0 + STATION_LIST_CACHE_TTL \<longrightarrow>
            allStations (loadStations wrapper t t' q f st) = A
          \<and> requests (loadStations wrapper t t' q f st) = requests st
          \<and> localStorage (loadStations wrapper t t' q f st) = localStorage st)
       \<and> (t0 + STATION_LIST_CACHE_TTL \<le> t \<longrightarrow>
            requests (loadStations wrapper t t' q f st) =
              requests st @ [fst (fetchStations wrapper t (Some q) (filterValueToApiParam f) False)]
          \<and> (\<forall>fresh. snd (fetchStations wrapper t (Some q) (filterValueToApiParam f) False) = Inr fresh \<longrightarrow>
                localStorage (loadStations wrapper t t' q f st) =
                  \<lparr>cachedStationList = Some fresh, cachedStationListTimestamp = Some t'\<rparr>
              \<and> allStations (loadStations wrapper t t' q f st) = fresh)
          \<and> (\<forall>err. snd (fetchStations wrapper t (Some q) (filterValueToApiParam f) False) = Inl err \<longrightarrow>
                localStorage (loadStations wrapper t t' q f st) = localStorage st
              \<and> allStations (loadStations wrapper t t' q f st) = []
              \<and> toasts (loadStations wrapper t t' q f st) = toasts st @
                   [\<lparr>style = Failure, title = ''Error Loading Stations'',
                     toast_message = Some (message err)\<rparr>]))"
proof (intro conjI impI)
  assume fresh: "t < t0 + STATION_LIST_CACHE_TTL"
  then have age: "t - t0 < STATION_LIST_CACHE_TTL" by linarith
  have "loadStations wrapper t t' q f st = st\<lparr>isLoading := True, allStations := A, isLoading := False\<rparr>"
    using assms age by (intro loadStations_fresh) simp_all
  then show "allStations (loadStations wrapper t t' q f st) = A"
    and "requests (loadStations wrapper t t' q f st) = requests st"
    and "localStorage (loadStations wrapper t t' q f st) = localStorage st"
    by simp_all
next
  assume stale: "t0 + STATION_LIST_CACHE_TTL \<le> t"
  then have age: "\<not> t - t0 < STATION_LIST_CACHE_TTL" by linarith
  obtain params outcome where
    call: "fetchStations wrapper t (Some q) (filterValueToApiParam f) False = (params, outcome)"
    by (cases "fetchStations wrapper t (Some q) (filterValueToApiParam f) False")
  have read: "loadStations wrapper t t' q f st =
     (case fetchStations wrapper t (Some q) (filterValueToApiParam f) False of
               (params, Inr stations) \<Rightarrow>
                 st\<lparr> isLoading := True, requests := requests st @ [params],
                     localStorage := \<lparr>cachedStationList = Some stations,
                                       cachedStationListTimestamp = Some t'\<rparr>,
                     allStations := stations,
                     isLoading := False \<rparr>
             | (params, Inl err) \<Rightarrow>
                 st\<lparr> isLoading := True, requests := requests st @ [params],
                     toasts := toasts st @
                       [\<lparr>style = Failure, title = ''Error Loading Stations'',
                         toast_message = Some (message err)\<rparr>],
                     allStations := [],
                     isLoading := False \<rparr>)"
    using assms age by (intro loadStations_fetch) simp
  show "requests (loadStations wrapper t t' q f st) =
          requests st @ [fst (fetchStations wrapper t (Some q) (filterValueToApiParam f) False)]"
    unfolding read call by (cases outcome) simp_all
  show "\<forall>fresh. snd (fetchStations wrapper t (Some q) (filterValueToApiParam f) False) = Inr fresh \<longrightarrow>
                localStorage (loadStations wrapper t t' q f st) =
                  \<lparr>cachedStationList = Some fresh, cachedStationListTimestamp = Some t'\<rparr>
              \<and> allStations (loadStations wrapper t t' q f st) = fresh"
    unfolding read call by simp
  show "\<forall>err. snd (fetchStations wrapper t (Some q) (filterValueToApiParam f) False) = Inl err \<longrightarrow>
                localStorage (loadStations wrapper t t' q f st) = localStorage st
              \<and> allStations (loadStations wrapper t t' q f st) = []
              \<and> toasts (loadStations wrapper t t' q f st) = toasts st @
                   [\<lparr>style = Failure, title = ''Error Loading Stations'',
                     toast_message = Some (message err)\<rparr>]"
    unfolding read call by simp
qed

theorem loadStations_ttl_witness:
  "allStations (loadStations failing_wrapper 1794311999999 1794311999999 [] AllSystems
      (sample_state \<lparr>cachedStationList = Some [sample_station ''2'' ''Canal St''],
                     cachedStationListTimestamp = Some 1793707200000\<rparr>)) =
     [sample_station ''2'' ''Canal St'']
   \<and> requests (loadStations failing_wrapper 1794311999999 1794311999999 [] AllSystems
      (sample_state \<lparr>cachedStationList = Some [sample_station ''2'' ''Canal St''],
                     cachedStationListTimestamp = Some 1793707200000\<rparr>)) = []
   \<and> requests (loadStations sample_server 1794312000000 1794312000001 [] AllSystems
      (sample_state \<lparr>cachedStationList = Some [sample_station ''2'' ''Canal St''],
                     cachedStationListTimestamp = Some 1793707200000\<rparr>)) = [[]]
   \<and> localStorage (loadStations sample_server 1794312000000 1794312000001 [] AllSystems
      (sample_state \<lparr>cachedStationList = Some [sample_station ''2'' ''Canal St''],
                     cachedStationListTimestamp = Some 1793707200000\<rparr>)) =
     \<lparr>cachedStationList = Some sample_list, cachedStationListTimestamp = Some 1794312000001\<rparr>"
  using loadStations_ttl
    [where st = "sample_state \<lparr>cachedStationList = Some [sample_station ''2'' ''Canal St''],
                               cachedStationListTimestamp = Some 1793707200000\<rparr>"
       and A = "[sample_station ''2'' ''Canal St'']" and ?t0.0 = 1793707200000
       and t = 1794311999999 and t' = 1794311999999 and wrapper = failing_wrapper
       and q = "[]" and f = AllSystems]
    loadStations_ttl
    [where st = "sample_state \<lparr>cachedStationList = Some [sample_station ''2'' ''Canal St''],
                               cachedStationListTimestamp = Some 1793707200000\<rparr>"
       and A = "[sample_station ''2'' ''Canal St'']" and ?t0.0 = 1793707200000
       and t = 1794312000000 and t' = 1794312000001 and wrapper = sample_server
       and q = "[]" and f = AllSystems]
  by (simp add: sample_state_def STATION_LIST_CACHE_TTL_def fetchStations_def sample_server_def)

text \<open>
  The claim as stated fails in two places. A read after the TTL whose fetch fails sends
  its one request but does not overwrite the snapshot and the timestamp; and a snapshot
  whose timestamp is 0 is not served from the cache even one second later.
\<close>

theorem loadStations_ttl_counterexample:
  "requests (loadStations failing_wrapper 1794312000000 1794312000001 [] AllSystems
      (sample_state \<lparr>cachedStationList = Some sample_list,
                     cachedStationListTimestamp = Some 1793707200000\<rparr>)) = [[]]
   \<and> localStorage (loadStations failing_wrapper 1794312000000 1794312000001 [] AllSystems
      (sample_state \<lparr>cachedStationList = Some sample_list,
                     cachedStationListTimestamp = Some 1793707200000\<rparr>)) =
     \<lparr>cachedStationList = Some sample_list, cachedStationListTimestamp = Some 1793707200000\<rparr>
   \<and> requests (loadStations sample_server 1000 1001 [] AllSystems
      (sample_state \<lparr>cachedStationList = Some sample_list,
                     cachedStationListTimestamp = Some 0\<rparr>)) = [[]]"
  by (simp add: loadStations_def fetchStations_def failing_wrapper_def sample_server_def
      sample_state_def Let_def STATION_LIST_CACHE_TTL_def)


section \<open>Properties of loading departures\<close>

lemma render_items_all:
  assumes "\<forall>d \<in> set ds. \<exists>i. render d = Inr i \<and> P d i"
  shows "\<exists>items. render_items render ds = Inr items \<and> list_all2 P ds items"
  using assms
proof (induction ds)
  case Nil
  then show ?case by simp
next
  case (Cons d ds)
  then obtain i where i: "render d = Inr i" "P d i" by auto
  from Cons obtain items where "render_items render ds = Inr items" "list_all2 P ds items"
    by auto
  with i show ?case by simp
qed

lemma render_item_ok:
  assumes "departureTime dep \<noteq> Some InvalidDate"
    and "\<exists>t. formatDepartureTime (departureTime dep) = Inr t"
    and "\<exists>c. getCopyContent dep = Inr c"
  shows "\<exists>item. render_item toISOString formatDepartureTime getCopyContent dep = Inr item
           \<and> details_departure item = dep"
proof -
  from assms(2) obtain t where t: "formatDepartureTime (departureTime dep) = Inr t" by blast
  from assms(3) obtain c where c: "getCopyContent dep = Inr c" by blast
  show ?thesis
  proof (cases "departureTime dep")
    case None
    with t c show ?thesis by (simp add: render_item_def)
  next
    case (Some date)
    with assms(1) obtain ms where "date = ValidDate ms" by (cases date) auto
    with Some t c show ?thesis by (simp add: render_item_def)
  qed
qed

lemma render_item_invalid_date:
  "departureTime dep = Some InvalidDate \<Longrightarrow>
     render_item toISOString formatDepartureTime getCopyContent dep = Inl RangeError"
  by (simp add: render_item_def)

lemma details_of_all:
  "list_all2 (\<lambda>d i. details_departure i = d) ds items \<Longrightarrow> map details_departure items = ds"
  by (induction ds items rule: list_all2_induct) simp_all

lemma section_details_of_all:
  "list_all2 (\<lambda>sec r. map details_departure (section_items r) = section_items sec) secs rs \<Longrightarrow>
     concat (map (\<lambda>r. map details_departure (section_items r)) rs) =
     concat (map section_items secs)"
  by (induction secs rs rule: list_all2_induct) simp_all

lemma sections_cover:
  "set (concat (map section_items (List.map_filter render_section
       (array_sort (section_compare lc sys) (Object_entries (plain_groups deps)))))) = set deps"
proof (intro set_eqI iffI)
  let ?sections = "List.map_filter render_section
       (array_sort (section_compare lc sys) (Object_entries (plain_groups deps)))"
  fix d
  assume "d \<in> set (concat (map section_items ?sections))"
  then obtain sec where "sec \<in> set ?sections" "d \<in> set (section_items sec)"
    by auto
  then show "d \<in> set deps"
    by (simp add: section_items_grouped)
next
  let ?sections = "List.map_filter render_section
       (array_sort (section_compare lc sys) (Object_entries (plain_groups deps)))"
  fix d
  assume d: "d \<in> set deps"
  have "mset (map section_key ?sections) = mset (encounter_order (map borough_label deps))"
    by (simp only: section_keys entries_keys_mset)
  then have "set (map section_key ?sections) = set (encounter_order (map borough_label deps))"
    by (rule mset_eq_setD)
  then have "set (map section_key ?sections) = set (map borough_label deps)"
    by (simp only: set_encounter_order)
  with d have "borough_label d \<in> set (map section_key ?sections)" by simp
  then obtain sec where sec: "sec \<in> set ?sections" "section_key sec = borough_label d"
    by auto
  with d have "d \<in> set (section_items sec)"
    by (simp add: section_items_grouped)
  with sec(1) show "d \<in> set (concat (map section_items ?sections))"
    by auto
qed

text \<open>
  When the view is idle and without error, no group label names a member of
  \<open>Object.prototype\<close>, no date is invalid and the two helpers do not throw, the render
  succeeds and shows exactly the departures of the state.
\<close>

lemma displayed_departures_all:
  assumes "\<not> sd_isLoading st" and "error st = None"
    and "\<forall>d \<in> set (processedDepartures st).
           borough_label d \<notin> set Object_prototype_members
         \<and> departureTime d \<noteq> Some InvalidDate
         \<and> (\<exists>t. formatDepartureTime (departureTime d) = Inr t)
         \<and> (\<exists>c. getCopyContent d = Inr c)"
  shows "\<exists>shown. displayed_departures localeCompare toISOString formatDepartureTime getCopyContent st =
                   Inr shown
           \<and> set shown = set (processedDepartures st)"
proof (cases "processedDepartures st = []")
  case True
  then show ?thesis
    by (simp add: displayed_departures_def displayed_sections_def)
next
  case False
  let ?deps = "processedDepartures st"
  let ?sections = "List.map_filter render_section
       (array_sort (section_compare localeCompare (ref_system (station st)))
          (Object_entries (plain_groups ?deps)))"
  let ?item = "render_item toISOString formatDepartureTime getCopyContent"
  let ?section = "\<lambda>sec. case render_items ?item (section_items sec) of
                         Inl e \<Rightarrow> Inl e
                       | Inr items \<Rightarrow>
                           Inr \<lparr> section_key = section_key sec,
                                 section_title = section_title sec,
                                 section_items = items \<rparr>"
  have grouped: "departure_sections localeCompare (ref_system (station st)) ?deps = Inr ?sections"
    using assms(3) by (intro departure_sections_plain) blast
  have cover: "set (concat (map section_items ?sections)) = set ?deps"
    by (rule sections_cover)
  have each: "\<exists>r. ?section sec = Inr r
                \<and> map details_departure (section_items r) = section_items sec"
    if "sec \<in> set ?sections" for sec
  proof -
    from that cover have inside: "set (section_items sec) \<subseteq> set ?deps" by auto
    have "\<forall>d \<in> set (section_items sec). \<exists>i. ?item d = Inr i \<and> details_departure i = d"
    proof
      fix d
      assume "d \<in> set (section_items sec)"
      with inside assms(3) show "\<exists>i. ?item d = Inr i \<and> details_departure i = d"
        by (intro render_item_ok) auto
    qed
    then obtain items where items: "render_items ?item (section_items sec) = Inr items"
        "list_all2 (\<lambda>d i. details_departure i = d) (section_items sec) items"
      using render_items_all [of "section_items sec" ?item "\<lambda>d i. details_departure i = d"] by blast
    from items(2) have "map details_departure items = section_items sec"
      by (rule details_of_all)
    with items(1) show ?thesis by simp
  qed
  then have "\<forall>sec \<in> set ?sections. \<exists>r. ?section sec = Inr r
                \<and> map details_departure (section_items r) = section_items sec"
    by blast
  then obtain rendered where rendered: "render_items ?section ?sections = Inr rendered"
      "list_all2 (\<lambda>sec r. map details_departure (section_items r) = section_items sec)
         ?sections rendered"
    using render_items_all [of ?sections ?section
            "\<lambda>sec r. map details_departure (section_items r) = section_items sec"] by blast
  from rendered(2) have same:
    "concat (map (\<lambda>r. map details_departure (section_items r)) rendered) =
     concat (map section_items ?sections)"
    by (rule section_details_of_all)
  have "displayed_sections localeCompare toISOString formatDepartureTime getCopyContent st =
          Inr rendered"
    using assms(1,2) False grouped rendered(1) by (simp add: displayed_sections_def)
  then have "displayed_departures localeCompare toISOString formatDepartureTime getCopyContent st =
          Inr (concat (map section_items ?sections))"
    using same by (simp add: displayed_departures_def)
  with cover show ?thesis by simp
qed

lemma loadDepartures_success:
  assumes "ref_id (station st) \<noteq> []"
    and "limit = (if selectedLimit st > 0 then Some (selectedLimit st) else None)"
    and "wrapper (departures_endpoint (ref_id (station st)) limit None) = Inr raw"
  shows "sd_requests (loadDepartures new_Date wrapper toast st) =
           sd_requests st @ [departures_endpoint (ref_id (station st)) limit None]"
    and "processedDepartures (loadDepartures new_Date wrapper toast st) =
           map (processDeparture new_Date) raw"
    and "\<not> sd_isLoading (loadDepartures new_Date wrapper toast st)"
    and "error (loadDepartures new_Date wrapper toast st) = None"
proof -
  have call: "fetchDepartures new_Date wrapper (ref_id (station st)) limit None =
                ([departures_endpoint (ref_id (station st)) limit None],
                 Inr (map (processDeparture new_Date) raw))"
    using assms(1,3) by (simp add: fetchDepartures_def Let_def)
  have unfold: "loadDepartures new_Date wrapper toast st =
     (let st1 = st\<lparr>sd_isLoading := True, error := None\<rparr>;
          st2 = (if toast
                then st1\<lparr>sd_toasts := sd_toasts st1 @
                        [\<lparr>style = Animated, title = ''Refreshing Departures...'',
                          toast_message = None\<rparr>]\<rparr>
                else st1);
          st3 = st2\<lparr>sd_requests := sd_requests st2 @ [departures_endpoint (ref_id (station st)) limit None],
                         processedDepartures := map (processDeparture new_Date) raw\<rparr>;
          st4 = (if toast
                       then st3\<lparr>sd_toasts := sd_toasts st3 @
                               [\<lparr>style = Success, title = ''Departures Updated'',
                                 toast_message = None\<rparr>]\<rparr>
                       else st3)
             in st4\<lparr>sd_isLoading := False\<rparr>)"
  proof (cases "selectedLimit st > 0")
    case True
    with assms(2) have l: "limit = Some (selectedLimit st)" by simp
    from call True show ?thesis
      unfolding l by (simp add: loadDepartures_def Let_def)
  next
    case False
    with assms(2) have l: "limit = None" by simp
    from call False show ?thesis
      unfolding l by (simp add: loadDepartures_def Let_def)
  qed
  show "sd_requests (loadDepartures new_Date wrapper toast st) =
           sd_requests st @ [departures_endpoint (ref_id (station st)) limit None]"
    and "processedDepartures (loadDepartures new_Date wrapper toast st) =
           map (processDeparture new_Date) raw"
    and "\<not> sd_isLoading (loadDepartures new_Date wrapper toast st)"
    and "error (loadDepartures new_Date wrapper toast st) = None"
    unfolding unfold by (simp_all add: Let_def)
qed

text \<open>
  Claim C6, as amended. For every selected limit \<open>L\<close>, the view asks the server for
  \<open>/departures/{id}?limitMinutes=L\<close> when \<open>L\<close> is positive and for \<open>/departures/{id}\<close>
  without a limit otherwise (0 means unbounded), and when the request succeeds it shows
  every departure that the server returned, whatever its departure time, known or not:
  the view itself applies no time window.
\<close>

text \<open>
  Claim C6, as amended. For every selected limit \<open>L\<close>, the view asks the server for
  \<open>/departures/{id}?limitMinutes=L\<close> when \<open>L\<close> is positive and for \<open>/departures/{id}\<close>
  without a limit otherwise (0 means unbounded). When the request succeeds and the render
  does not throw (no returned departure has an unparseable time, a borough naming a
  member of \<open>Object.prototype\<close>, or makes \<open>formatDepartureTime\<close> or \<open>getCopyContent\<close> throw),
  the view shows every departure that the server returned, whatever its departure time,
  known or not: the view itself applies no time window.
\<close>

theorem loadDepartures_shows_all_returned:
  assumes "ref_id (station st) \<noteq> []"
    and "wrapper (departures_endpoint (ref_id (station st))
           (if selectedLimit st > 0 then Some (selectedLimit st) else None) None) = Inr raw"
    and "\<forall>d \<in> set (map (processDeparture new_Date) raw).
           borough_label d \<notin> set Object_prototype_members
         \<and> departureTime d \<noteq> Some InvalidDate
         \<and> (\<exists>t. formatDepartureTime (departureTime d) = Inr t)
         \<and> (\<exists>c. getCopyContent d = Inr c)"
  shows "sd_requests (loadDepartures new_Date wrapper toast st) =
           sd_requests st @
             [''/departures/'' @ ref_id (station st) @
              (if selectedLimit st > 0 then ''?limitMinutes='' @ toString_int (selectedLimit st)
               else [])]
       \<and> processedDepartures (loadDepartures new_Date wrapper toast st) =
           map (processDeparture new_Date) raw
       \<and> (\<exists>shown.
            displayed_departures localeCompare toISOString formatDepartureTime getCopyContent
              (loadDepartures new_Date wrapper toast st) = Inr shown
          \<and> set shown = set (map (processDeparture new_Date) raw))"
proof -
  define limit where "limit = (if selectedLimit st > 0 then Some (selectedLimit st) else None)"
  let ?st' = "loadDepartures new_Date wrapper toast st"
  have path: "departures_endpoint (ref_id (station st)) limit None =
                ''/departures/'' @ ref_id (station st) @
                (if selectedLimit st > 0 then ''?limitMinutes='' @ toString_int (selectedLimit st)
                 else [])"
    by (simp add: departures_endpoint_def limit_def)
  have ok: "wrapper (departures_endpoint (ref_id (station st)) limit None) = Inr raw"
    using assms(2) by (simp only: limit_def)
  note facts = loadDepartures_success
    [where st = st and limit = limit and wrapper = wrapper and raw = raw
       and new_Date = new_Date and toast = toast, OF assms(1) limit_def ok]
  have safe: "\<forall>d \<in> set (processedDepartures ?st').
           borough_label d \<notin> set Object_prototype_members
         \<and> departureTime d \<noteq> Some InvalidDate
         \<and> (\<exists>t. formatDepartureTime (departureTime d) = Inr t)
         \<and> (\<exists>c. getCopyContent d = Inr c)"
    using assms(3) by (simp only: facts(2))
  from displayed_departures_all [OF facts(3,4) safe, of localeCompare toISOString]
  obtain shown where
      "displayed_departures localeCompare toISOString formatDepartureTime getCopyContent ?st' =
         Inr shown"
      "set shown = set (processedDepartures ?st')"
    by blast
  with facts(1,2) path show ?thesis by simp
qed

theorem loadDepartures_shows_all_returned_witness:
  "sd_requests (loadDepartures sample_new_Date
         (sample_wrapper [sample_departure (Some ''2026-11-03T12:45:00.000Z'') None None]) False
         (initial_StationDepartures sample_ref (Some 30))) = [''/departures/237?limitMinutes=30'']
   \<and> map departureTime (processedDepartures (loadDepartures sample_new_Date
         (sample_wrapper [sample_departure (Some ''2026-11-03T12:45:00.000Z'') None None]) False
         (initial_StationDepartures sample_ref (Some 30)))) = [Some (ValidDate 1793709900000)]
   \<and> (\<exists>shown.
        displayed_departures localeCompare_en sample_toISOString sample_formatDepartureTime
          sample_getCopyContent
          (loadDepartures sample_new_Date
             (sample_wrapper [sample_departure (Some ''2026-11-03T12:45:00.000Z'') None None]) False
             (initial_StationDepartures sample_ref (Some 30))) = Inr shown
      \<and> map departureTime shown = [Some (ValidDate 1793709900000)])"
proof -
  let ?raw = "[sample_departure (Some ''2026-11-03T12:45:00.000Z'') None None]"
  let ?st = "initial_StationDepartures sample_ref (Some 30) :: Date StationDepartures"
  have id: "ref_id (station ?st) \<noteq> []"
    by (simp add: initial_StationDepartures_def sample_ref_def)
  have answer: "sample_wrapper ?raw (departures_endpoint (ref_id (station ?st))
           (if selectedLimit ?st > 0 then Some (selectedLimit ?st) else None) None) = Inr ?raw"
    by (simp add: sample_wrapper_def)
  have safe: "\<forall>d \<in> set (map (processDeparture sample_new_Date) ?raw).
           borough_label d \<notin> set Object_prototype_members
         \<and> departureTime d \<noteq> Some InvalidDate
         \<and> (\<exists>t. sample_formatDepartureTime (departureTime d) = Inr t)
         \<and> (\<exists>c. sample_getCopyContent d = Inr c)"
    by (simp add: processDeparture_def sample_departure_def sample_new_Date_def
        borough_label_def Object_prototype_members_def sample_formatDepartureTime_def
        sample_getCopyContent_def)
  from loadDepartures_shows_all_returned
         [where st = ?st and wrapper = "sample_wrapper ?raw" and raw = ?raw
            and new_Date = sample_new_Date and toast = False
            and formatDepartureTime = sample_formatDepartureTime
            and getCopyContent = sample_getCopyContent
            and localeCompare = localeCompare_en and toISOString = sample_toISOString,
          OF id answer safe]
  obtain shown where shown:
      "sd_requests (loadDepartures sample_new_Date (sample_wrapper ?raw) False ?st) =
         sd_requests ?st @
           [''/departures/'' @ ref_id (station ?st) @
            (if selectedLimit ?st > 0 then ''?limitMinutes='' @ toString_int (selectedLimit ?st)
             else [])]"
      "processedDepartures (loadDepartures sample_new_Date (sample_wrapper ?raw) False ?st) =
         map (processDeparture sample_new_Date) ?raw"
      "displayed_departures localeCompare_en sample_toISOString sample_formatDepartureTime
         sample_getCopyContent (loadDepartures sample_new_Date (sample_wrapper ?raw) False ?st) =
           Inr shown"
      "set shown = set (map (processDeparture sample_new_Date) ?raw)"
    by blast
  have one: "map departureTime (map (processDeparture sample_new_Date) ?raw) =
               [Some (ValidDate 1793709900000)]"
    by (simp add: processDeparture_def sample_departure_def sample_new_Date_def)
  have "shown \<noteq> []" using shown(4) by auto
  moreover have "\<forall>d \<in> set shown. departureTime d = Some (ValidDate 1793709900000)"
    using shown(4) one by auto
  moreover have "length shown = 1"
    using shown(3)
    by (auto simp add: displayed_departures_def displayed_sections_def loadDepartures_def
        fetchDepartures_def departures_endpoint_def sample_wrapper_def sample_departure_def
        processDeparture_def initial_StationDepartures_def sample_ref_def sample_new_Date_def
        departure_sections_def groupByBorough_def group_step_def get_property_def
        Object_prototype_members_def Object_entries_def is_array_index_def parse_nat_def
        digit_value_def toString_nat.simps digit_char_def borough_label_def
        section_compare_def render_section_def render_item_def
        sample_formatDepartureTime_def sample_getCopyContent_def Let_def
        split: sum.splits)
  ultimately have "map departureTime shown = [Some (ValidDate 1793709900000)]"
    by (cases shown) auto
  moreover have "sd_requests (loadDepartures sample_new_Date (sample_wrapper ?raw) False ?st) =
                   [''/departures/237?limitMinutes=30'']"
    using shown(1)
    by (simp add: initial_StationDepartures_def sample_ref_def toString_int_def
        toString_nat.simps digit_char_def)
  ultimately show ?thesis using shown(2,3) one by auto
qed

text \<open>
  The claim as stated fails: with the limit 30 selected and the reference time 12:00, a
  departure at 12:45 (45 minutes later) that the server returns is on screen, although
  it lies outside the 30 minute window.
\<close>

theorem time_window_counterexample:
  "displayed_departures localeCompare_en sample_toISOString sample_formatDepartureTime
     sample_getCopyContent
     (loadDepartures sample_new_Date
        (sample_wrapper [sample_departure (Some ''2026-11-03T12:45:00.000Z'') None None]) False
        (initial_StationDepartures sample_ref (Some 30))) =
     Inr [processDeparture sample_new_Date
            (sample_departure (Some ''2026-11-03T12:45:00.000Z'') None None)]
   \<and> departureTime (processDeparture sample_new_Date
        (sample_departure (Some ''2026-11-03T12:45:00.000Z'') None None)) =
     Some (ValidDate 1793709900000)
   \<and> selectedLimit (initial_StationDepartures sample_ref (Some 30) :: Date StationDepartures) = 30
   \<and> 1793709900000 = 1793707200000 + 45 * 60 * (1000 :: int)
   \<and> \<not> within_time_window (Some 30) 1793707200000 (Some 1793709900000)"
  by (simp add: displayed_departures_def displayed_sections_def loadDepartures_def
      fetchDepartures_def departures_endpoint_def sample_wrapper_def sample_departure_def
      processDeparture_def initial_StationDepartures_def sample_ref_def sample_new_Date_def
      within_time_window_def departure_sections_def groupByBorough_def group_step_def
      get_property_def Object_prototype_members_def Object_entries_def is_array_index_def
      parse_nat_def digit_value_def toString_nat.simps digit_char_def borough_label_def
      section_compare_def render_section_def render_item_def
      sample_formatDepartureTime_def sample_getCopyContent_def Let_def)

text \<open>
  The render does throw where the text above excludes it: a departure whose time does
  not parse ends it with a \<open>RangeError\<close>.
\<close>

lemma displayed_departures_invalid_date:
  "displayed_departures localeCompare_en sample_toISOString sample_formatDepartureTime
     sample_getCopyContent
     (loadDepartures sample_new_Date
        (sample_wrapper [sample_departure (Some ''soon'') None None]) False
        (initial_StationDepartures sample_ref (Some 30))) = Inl RangeError"
  by (simp add: displayed_departures_def displayed_sections_def loadDepartures_def
      fetchDepartures_def departures_endpoint_def sample_wrapper_def sample_departure_def
      processDeparture_def initial_StationDepartures_def sample_ref_def sample_new_Date_def
      departure_sections_def groupByBorough_def group_step_def
      get_property_def Object_prototype_members_def Object_entries_def is_array_index_def
      parse_nat_def digit_value_def toString_nat.simps digit_char_def borough_label_def
      section_compare_def render_section_def render_item_def Let_def)

end
